theory Spec2Isabelle
  imports Main "HOL-Library.Sublist"
begin

section \<open>Documents\<close>

text \<open>
  A Document is what Python's \<open>json\<close> module hands to the scripts: \<open>None\<close>, a
  \<open>bool\<close>, an \<open>int\<close>, a \<open>float\<close>, a \<open>str\<close>, a \<open>list\<close> or a \<open>dict\<close> with string
  keys. A \<open>dict\<close> is kept as the list of its items in insertion order. No function of the
  scripts reads the value of a float leaf, so a float is kept as an opaque pair
  (mantissa, binary exponent). Python's \<open>None\<close> is \<open>JNull\<close>.
\<close>

datatype json =
    JNull
  | JBool bool
  | JInt int
  | JFloat int int
  | JStr string
  | JArr "json list"
  | JObj "(string \<times> json) list"

text \<open>Python truthiness (\<open>if x:\<close>, \<open>not x\<close>, \<open>a and b\<close>) of a Document.\<close>

fun py_truthy :: "json \<Rightarrow> bool" where
  "py_truthy JNull = False"
| "py_truthy (JBool b) = b"
| "py_truthy (JInt i) = (i \<noteq> 0)"
| "py_truthy (JFloat m e) = (m \<noteq> 0)"
| "py_truthy (JStr s) = (s \<noteq> [])"
| "py_truthy (JArr xs) = (xs \<noteq> [])"
| "py_truthy (JObj kvs) = (kvs \<noteq> [])"

text \<open>\<open>d.get(key)\<close> and \<open>d.get(key, default)\<close> on an optional field: \<open>None\<close> is an absent key.\<close>

definition get_or :: "'a \<Rightarrow> 'a option \<Rightarrow> 'a" where
  "get_or dflt field = (case field of None \<Rightarrow> dflt | Some v \<Rightarrow> v)"

section \<open>Strings\<close>

text \<open>
  \<open>s.replace(old, new)\<close>: every non-overlapping occurrence of \<open>old\<close>, scanning from the
  left; for the empty \<open>old\<close> Python inserts \<open>new\<close> before every character and at the end.
  \<open>old in s\<close> is \<^const>\<open>sublist\<close>.
\<close>

function str_replace :: "string \<Rightarrow> string \<Rightarrow> string \<Rightarrow> string" where
  "str_replace old new s =
     (if old = [] then new @ concat (map (\<lambda>c. c # new) s)
      else if s = [] then []
      else if prefix old s then new @ str_replace old new (drop (length old) s)
      else hd s # str_replace old new (tl s))"
  by pat_completeness auto
termination
  by (relation "measure (\<lambda>(old, new, s). length s)") auto

declare str_replace.simps [simp del]

section \<open>Correction merger\<close>

subsection \<open>Recursive text replacement\<close>

text \<open>
  \<open>apply_text_replacement_recursive\<close> of \<open>apply_claude_corrections.py\<close>. The Python
  mutates \<open>obj\<close> in place and returns the number of string values it changed; the model
  returns the updated object with that number. The two loops are \<open>atrr_dict\<close>
  (\<open>for key in obj\<close>) and \<open>atrr_list\<close> (\<open>for i, item in enumerate(obj)\<close>). An object that is
  neither a dict nor a list, a top-level string included, is left alone.
\<close>

fun apply_text_replacement_recursive :: "json \<Rightarrow> string \<Rightarrow> string \<Rightarrow> json \<times> nat"
and atrr_dict :: "(string \<times> json) list \<Rightarrow> string \<Rightarrow> string \<Rightarrow> (string \<times> json) list \<times> nat"
and atrr_list :: "json list \<Rightarrow> string \<Rightarrow> string \<Rightarrow> json list \<times> nat"
where
  "apply_text_replacement_recursive (JObj kvs) original_text corrected_text =
     (let (kvs', n) = atrr_dict kvs original_text corrected_text in (JObj kvs', n))"
| "apply_text_replacement_recursive (JArr xs) original_text corrected_text =
     (let (xs', n) = atrr_list xs original_text corrected_text in (JArr xs', n))"
| "apply_text_replacement_recursive obj original_text corrected_text = (obj, 0)"
| "atrr_dict [] original_text corrected_text = ([], 0)"
| "atrr_dict ((key, v) # kvs) original_text corrected_text =
     (let (v', n) =
        (case v of
           JStr s \<Rightarrow>
             (if sublist original_text s
              then (JStr (str_replace original_text corrected_text s), 1)
              else (v, 0))
         | JObj _ \<Rightarrow> apply_text_replacement_recursive v original_text corrected_text
         | JArr _ \<Rightarrow> apply_text_replacement_recursive v original_text corrected_text
         | _ \<Rightarrow> (v, 0));
          (kvs', m) = atrr_dict kvs original_text corrected_text
      in ((key, v') # kvs', n + m))"
| "atrr_list [] original_text corrected_text = ([], 0)"
| "atrr_list (item # xs) original_text corrected_text =
     (let (item', n) =
        (case item of
           JStr s \<Rightarrow>
             (if sublist original_text s
              then (JStr (str_replace original_text corrected_text s), 1)
              else (item, 0))
         | JObj _ \<Rightarrow> apply_text_replacement_recursive item original_text corrected_text
         | JArr _ \<Rightarrow> apply_text_replacement_recursive item original_text corrected_text
         | _ \<Rightarrow> (item, 0));
          (xs', m) = atrr_list xs original_text corrected_text
      in (item' # xs', n + m))"

text \<open>
  \<open>_replace_in_obj\<close> of \<open>apply_gemini_corrections.py\<close>: the same walk, with the string
  test and the containment test joined by \<open>and\<close>.
\<close>

fun replace_in_obj :: "json \<Rightarrow> string \<Rightarrow> string \<Rightarrow> json \<times> nat"
and rio_dict :: "(string \<times> json) list \<Rightarrow> string \<Rightarrow> string \<Rightarrow> (string \<times> json) list \<times> nat"
and rio_list :: "json list \<Rightarrow> string \<Rightarrow> string \<Rightarrow> json list \<times> nat"
where
  "replace_in_obj (JObj kvs) original corrected =
     (let (kvs', n) = rio_dict kvs original corrected in (JObj kvs', n))"
| "replace_in_obj (JArr xs) original corrected =
     (let (xs', n) = rio_list xs original corrected in (JArr xs', n))"
| "replace_in_obj obj original corrected = (obj, 0)"
| "rio_dict [] original corrected = ([], 0)"
| "rio_dict ((key, v) # kvs) original corrected =
     (let (v', n) =
        (if (case v of JStr s \<Rightarrow> sublist original s | _ \<Rightarrow> False)
         then (case v of JStr s \<Rightarrow> (JStr (str_replace original corrected s), 1) | _ \<Rightarrow> (v, 0))
         else (case v of
                 JObj _ \<Rightarrow> replace_in_obj v original corrected
               | JArr _ \<Rightarrow> replace_in_obj v original corrected
               | _ \<Rightarrow> (v, 0)));
          (kvs', m) = rio_dict kvs original corrected
      in ((key, v') # kvs', n + m))"
| "rio_list [] original corrected = ([], 0)"
| "rio_list (item # xs) original corrected =
     (let (item', n) =
        (if (case item of JStr s \<Rightarrow> sublist original s | _ \<Rightarrow> False)
         then (case item of JStr s \<Rightarrow> (JStr (str_replace original corrected s), 1) | _ \<Rightarrow> (item, 0))
         else (case item of
                 JObj _ \<Rightarrow> replace_in_obj item original corrected
               | JArr _ \<Rightarrow> replace_in_obj item original corrected
               | _ \<Rightarrow> (item, 0)));
          (xs', m) = rio_list xs original corrected
      in (item' # xs', n + m))"

subsection \<open>Issues and change records\<close>

text \<open>
  One entry of a QA file's \<open>issues\<close> list. The data model types \<open>original_text\<close> and
  \<open>corrected_text\<close> as strings; \<open>None\<close> is a field that is absent (or \<open>null\<close>). The fields
  \<open>type\<close>, \<open>severity\<close> and \<open>location\<close> are only copied, whatever they hold: \<open>None\<close> is a key
  that is absent, \<open>Some JNull\<close> a key that holds \<open>null\<close>.
\<close>

record issue =
  original_text :: "string option"
  corrected_text :: "string option"
  issue_type :: "json option"
  severity :: "json option"
  location :: "json option"

text \<open>Truthiness of an optional string: \<open>None\<close> and \<open>""\<close> are falsy.\<close>

definition str_truthy :: "string option \<Rightarrow> bool" where
  "str_truthy f = (case f of None \<Rightarrow> False | Some s \<Rightarrow> s \<noteq> [])"

text \<open>
  The entries of \<open>corrections_applied\<close> in \<open>apply_claude_corrections.py\<close>: the string
  \<open>"Full corrected_json replacement"\<close>, or one dict per issue that changed something.
\<close>

datatype claude_applied =
    Full_corrected_json_replacement
  | Issue_applied (a_type: json) (a_severity: json) (a_location: json)
      (a_original: string) (a_corrected: string) (replacements_made: nat)

text \<open>
  The entries of \<open>corrections\<close> in \<open>apply_gemini_corrections.py\<close>: \<open>{original, corrected,
  count}\<close> from \<open>apply_text_corrections\<close>, or \<open>{original, corrected}\<close> listed beside a
  \<open>corrected_json\<close>.
\<close>

datatype gemini_correction =
    Correction_applied string string nat
  | Correction_listed string string

subsection \<open>Fragment mode\<close>

text \<open>
  \<open>apply_text_corrections\<close> of \<open>apply_gemini_corrections.py\<close>. \<open>atc_loop\<close> is the
  \<open>for issue in issues\<close> loop over the deep copy \<open>result\<close> and the list
  \<open>corrections_applied\<close>.
\<close>

fun atc_loop :: "json \<Rightarrow> gemini_correction list \<Rightarrow> issue list \<Rightarrow> json \<times> gemini_correction list" where
  "atc_loop result corrections_applied [] = (result, corrections_applied)"
| "atc_loop result corrections_applied (issue # issues) =
     (let original = original_text issue; corrected = corrected_text issue in
      if \<not> str_truthy original \<or> \<not> str_truthy corrected \<or> original = corrected
      then atc_loop result corrections_applied issues
      else
        (let (result', count) = replace_in_obj result (get_or [] original) (get_or [] corrected) in
         if count > 0
         then atc_loop result'
                (corrections_applied @
                   [Correction_applied (get_or [] original) (get_or [] corrected) count])
                issues
         else atc_loop result' corrections_applied issues))"

definition apply_text_corrections :: "json \<Rightarrow> issue list \<Rightarrow> json \<times> gemini_correction list" where
  "apply_text_corrections parsed_json issues = atc_loop parsed_json [] issues"

text \<open>
  The \<open>for issue in issues\<close> loop of \<open>process_page\<close> in \<open>apply_claude_corrections.py\<close>,
  over \<open>parsed_json\<close>, \<open>result["had_corrections"]\<close> and \<open>result["corrections_applied"]\<close>.
\<close>

fun claude_issue_loop ::
  "json \<Rightarrow> bool \<Rightarrow> claude_applied list \<Rightarrow> issue list \<Rightarrow> json \<times> bool \<times> claude_applied list" where
  "claude_issue_loop parsed_json had applied [] = (parsed_json, had, applied)"
| "claude_issue_loop parsed_json had applied (issue # issues) =
     (let original = get_or [] (original_text issue);
          corrected = get_or [] (corrected_text issue) in
      if original \<noteq> [] \<and> corrected \<noteq> [] \<and> original \<noteq> corrected
      then
        (let (parsed_json', count) =
               apply_text_replacement_recursive parsed_json original corrected in
         if count > 0
         then claude_issue_loop parsed_json' True
                (applied @ [Issue_applied
                   (get_or (JStr ''unknown'') (issue_type issue))
                   (get_or (JStr ''unknown'') (severity issue))
                   (get_or (JStr []) (location issue))
                   original corrected count])
                issues
         else claude_issue_loop parsed_json' had applied issues)
      else claude_issue_loop parsed_json had applied issues)"

subsection \<open>Per-page correction\<close>

text \<open>
  What \<open>process_page\<close> reads: the page's OCR record (\<open>pages/page_NNN.json\<close>) and its QA
  record. A field is \<open>None\<close> when its key is absent. \<open>process_page\<close> writes one Document
  (\<open>save_json\<close>) and returns a metadata dict; the model returns both.
\<close>

record ocr_data =
  ocr_parsed_json :: "json option"
  ocr_book_page :: "json option"

record qa_data =
  q_overall_quality :: "json option"
  q_summary :: "json option"
  q_corrected_json :: "json option"
  q_issues :: "issue list option"

record claude_result =
  cr_page :: nat
  cr_had_corrections :: bool
  cr_corrections_applied :: "claude_applied list"
  cr_quality :: json
  cr_summary :: json
  cr_book_page :: json

text \<open>
  \<open>process_page\<close> of \<open>apply_claude_corrections.py\<close>; \<open>qa_file\<close> is \<open>None\<close> when the QA file
  does not exist. The first component is the Document saved to \<open>claude_corrected/\<close>.
\<close>

definition claude_process_page :: "nat \<Rightarrow> ocr_data \<Rightarrow> qa_data option \<Rightarrow> json \<times> claude_result" where
  "claude_process_page page_num ocr qa_file =
     (let parsed_json = get_or (JObj []) (ocr_parsed_json ocr);
          result = \<lparr>cr_page = page_num, cr_had_corrections = False, cr_corrections_applied = [],
                    cr_quality = JNull, cr_summary = JNull,
                    cr_book_page = get_or JNull (ocr_book_page ocr)\<rparr>
      in case qa_file of
           None \<Rightarrow> (parsed_json, result)
         | Some qa \<Rightarrow>
             (let result = result\<lparr>cr_quality := get_or (JStr ''unknown'') (q_overall_quality qa),
                                  cr_summary := get_or (JStr []) (q_summary qa)\<rparr>;
                  corrected_json = get_or JNull (q_corrected_json qa)
              in if corrected_json \<noteq> JNull \<and> corrected_json \<noteq> JStr ''null''
                 then (corrected_json,
                       result\<lparr>cr_had_corrections := True,
                              cr_corrections_applied :=
                                cr_corrections_applied result @ [Full_corrected_json_replacement]\<rparr>)
                 else
                   (let (parsed_json', had, applied) =
                          claude_issue_loop parsed_json (cr_had_corrections result)
                            (cr_corrections_applied result) (get_or [] (q_issues qa))
                    in (parsed_json',
                        result\<lparr>cr_had_corrections := had, cr_corrections_applied := applied\<rparr>))))"

record gemini_result =
  gr_page :: nat
  gr_modified :: bool
  gr_method :: string
  gr_corrections :: "gemini_correction list"
  gr_quality :: json
  gr_issues_count :: nat
  gr_summary :: json

text \<open>
  \<open>process_page\<close> of \<open>apply_gemini_corrections.py\<close>; \<open>parsed_qa\<close> is the QA file's
  \<open>parsed_qa\<close> field. The first component is the Document saved to \<open>gemini_corrected/\<close>.
\<close>

definition gemini_process_page :: "nat \<Rightarrow> ocr_data \<Rightarrow> qa_data option \<Rightarrow> json \<times> gemini_result" where
  "gemini_process_page page_num original parsed_qa =
     (let parsed_json = get_or JNull (ocr_parsed_json original) in
      if parsed_json = JNull
      then (JObj [],
            \<lparr>gr_page = page_num, gr_modified = False, gr_method = ''no_parsed_json'',
             gr_corrections = [], gr_quality = JNull, gr_issues_count = 0,
             gr_summary = JStr ''No parsed JSON available''\<rparr>)
      else case parsed_qa of
           None \<Rightarrow>
             (parsed_json,
              \<lparr>gr_page = page_num, gr_modified = False, gr_method = ''qa_parse_failed'',
               gr_corrections = [], gr_quality = JNull, gr_issues_count = 0,
               gr_summary = JStr ''QA parsing failed, using original''\<rparr>)
         | Some qa \<Rightarrow>
             (let quality = get_or (JStr ''unknown'') (q_overall_quality qa);
                  qa_summary = get_or (JStr []) (q_summary qa);
                  issues = get_or [] (q_issues qa);
                  corrected_json = get_or JNull (q_corrected_json qa)
              in if py_truthy corrected_json
                 then (corrected_json,
                       \<lparr>gr_page = page_num, gr_modified = True, gr_method = ''corrected_json'',
                        gr_corrections =
                          map (\<lambda>iss. Correction_listed (get_or [] (original_text iss))
                                                        (get_or [] (corrected_text iss)))
                            (filter (\<lambda>iss. str_truthy (original_text iss) \<and>
                                            str_truthy (corrected_text iss)) issues),
                        gr_quality = quality, gr_issues_count = length issues,
                        gr_summary = qa_summary\<rparr>)
                 else if issues \<noteq> []
                 then
                   (let (corrected, corrections_applied) = apply_text_corrections parsed_json issues;
                        modified = (length corrections_applied > 0)
                    in (corrected,
                        \<lparr>gr_page = page_num, gr_modified = modified,
                         gr_method = (if modified then ''text_replacement''
                                      else ''no_applicable_corrections''),
                         gr_corrections = corrections_applied, gr_quality = quality,
                         gr_issues_count = length issues, gr_summary = qa_summary\<rparr>))
                 else
                   (parsed_json,
                    \<lparr>gr_page = page_num, gr_modified = False, gr_method = ''no_corrections_needed'',
                     gr_corrections = [], gr_quality = quality, gr_issues_count = 0,
                     gr_summary = qa_summary\<rparr>)))"

section \<open>Recovery engine\<close>

subsection \<open>Library boundary\<close>

text \<open>
  \<open>json.loads\<close> belongs to Python's standard library, not to the repository, so the
  recovery functions take it as the parameter \<open>loads\<close>: \<open>Inr v\<close> is the parsed value,
  \<open>Inl msg\<close> is a \<open>JSONDecodeError\<close> whose \<open>str(e)\<close> is \<open>msg\<close>. (On text nested deeper than
  the interpreter's recursion limit \<open>json.loads\<close> raises \<open>RecursionError\<close>; that resource
  limit is outside the model.)

  Strings are lists of 8-bit characters, read as the code points 0 to 255.
\<close>

type_synonym loads = "string \<Rightarrow> string + json"

text \<open>An exception that leaves a function of \<open>archive/scripts/extract.py\<close>.\<close>

datatype py_error =
    ValueError
  | AttributeError

subsection \<open>String operations\<close>

text \<open>
  \<open>str.isspace\<close> on one character, which is also what \<open>\s\<close> matches in a \<open>str\<close> pattern:
  tab, line feed, vertical tab, form feed, carriage return, the separators 0x1C to 0x1F,
  space, 0x85 and 0xA0.
\<close>

definition py_isspace :: "char \<Rightarrow> bool" where
  "py_isspace c =
     (let n = (of_char c :: nat)
      in (9 \<le> n \<and> n \<le> 13) \<or> (28 \<le> n \<and> n \<le> 32) \<or> n = 133 \<or> n = 160)"

definition py_rstrip :: "string \<Rightarrow> string" where
  "py_rstrip s = rev (dropWhile py_isspace (rev s))"

definition py_strip :: "string \<Rightarrow> string" where
  "py_strip s = py_rstrip (dropWhile py_isspace s)"

text \<open>\<open>s.find(sub)\<close>: the index of the first occurrence, \<open>None\<close> for Python's \<open>-1\<close>.\<close>

fun find_sub :: "string \<Rightarrow> string \<Rightarrow> nat option" where
  "find_sub sub [] = (if sub = [] then Some 0 else None)"
| "find_sub sub (c # cs) =
     (if prefix sub (c # cs) then Some 0 else map_option Suc (find_sub sub cs))"

subsection \<open>Stage 1: the fenced block\<close>

text \<open>
  \<open>re.search(r'```(?:json)?\s*\n?(.*?)```', raw, re.DOTALL)\<close>, its group 1. A match
  can only start at the first \<open>```\<close>; from there the greedy \<open>(?:json)?\<close> and \<open>\s*\<close> take
  the tag and all whitespace (leaving nothing for \<open>\n?\<close>), and the lazy group runs to the
  next \<open>```\<close>. Backtracking finds nothing more: a \<open>```\<close> cannot begin inside the tag or
  the whitespace, so if no \<open>```\<close> follows them, none follows the opener at all.
\<close>

definition fence_search :: "string \<Rightarrow> string option" where
  "fence_search raw =
     (case find_sub ''```'' raw of
        None \<Rightarrow> None
      | Some p \<Rightarrow>
          (let rest = drop (p + 3) raw;
               rest = (if prefix ''json'' rest then drop 4 rest else rest);
               rest = dropWhile py_isspace rest
           in case find_sub ''```'' rest of
                None \<Rightarrow> None
              | Some q \<Rightarrow> Some (take q rest)))"

subsection \<open>Stage 3: trailing commas\<close>

text \<open>
  \<open>re.sub(r',(\s*[}\]])', r'\1', raw)\<close>: a comma is dropped when the next character
  that is not whitespace is a closing brace or bracket. The text kept from a match holds
  no comma, so scanning on from the character after the comma gives the same result as
  scanning on from the end of the match.
\<close>

definition closer_follows :: "string \<Rightarrow> bool" where
  "closer_follows cs =
     (case dropWhile py_isspace cs of
        [] \<Rightarrow> False
      | d # _ \<Rightarrow> d = CHR ''}'' \<or> d = CHR '']'')"

fun fix_trailing_commas :: "string \<Rightarrow> string" where
  "fix_trailing_commas [] = []"
| "fix_trailing_commas (c # cs) =
     (if c = CHR '','' \<and> closer_follows cs
      then fix_trailing_commas cs
      else c # fix_trailing_commas cs)"

text \<open>
  \<open>re.sub(r',\s*}', '}', raw)\<close> and \<open>re.sub(r',\s*]', ']', fixed)\<close> of
  \<open>extract_json_from_response\<close>: the comma goes together with the whitespace after it.
\<close>

function remove_comma_before :: "char \<Rightarrow> string \<Rightarrow> string" where
  "remove_comma_before closer [] = []"
| "remove_comma_before closer (c # cs) =
     (if c = CHR '','' \<and> (case dropWhile py_isspace cs of [] \<Rightarrow> False | d # _ \<Rightarrow> d = closer)
      then remove_comma_before closer (dropWhile py_isspace cs)
      else c # remove_comma_before closer cs)"
  by pat_completeness auto
termination
  by (relation "measure (\<lambda>(closer, s). length s)")
     (auto simp: less_Suc_eq_le length_dropWhile_le)

subsection \<open>Stage 4: the balanced braces\<close>

text \<open>
  The loop \<open>for i in range(start, len(raw))\<close> over the text from the first \<open>{\<close>: the
  number of characters read when \<open>depth\<close> is first 0 after a character, \<open>None\<close> when the
  text ends before that.
\<close>

fun brace_scan :: "int \<Rightarrow> string \<Rightarrow> nat option" where
  "brace_scan depth [] = None"
| "brace_scan depth (c # cs) =
     (let depth = (if c = CHR ''{'' then depth + 1
                   else if c = CHR ''}'' then depth - 1
                   else depth)
      in if depth = 0 then Some 1 else map_option Suc (brace_scan depth cs))"

subsection \<open>Stage 5: truncation\<close>

text \<open>
  The test \<open>'Expecting' in str(e) and (',' in str(e) or '}' in str(e) or ']' in str(e))\<close>.
\<close>

definition expecting_delimiter :: "string \<Rightarrow> bool" where
  "expecting_delimiter msg =
     (sublist ''Expecting'' msg \<and>
      (CHR '','' \<in> set msg \<or> CHR ''}'' \<in> set msg \<or> CHR '']'' \<in> set msg))"

text \<open>
  The loop \<open>for _ in range(10)\<close>; the first argument counts the rounds left. Both
  functions below return the texts handed to \<open>json.loads\<close>, in order, with the result.
\<close>

fun truncation_loop :: "loads \<Rightarrow> nat \<Rightarrow> string \<Rightarrow> string list \<times> json" where
  "truncation_loop loads 0 attempt = ([], JNull)"
| "truncation_loop loads (Suc rounds) attempt =
     (case loads attempt of
        Inr v \<Rightarrow> ([attempt], v)
      | Inl e \<Rightarrow>
          if expecting_delimiter e
          then
            (let attempt' = (if suffix '','' (py_rstrip attempt)
                             then butlast (py_rstrip attempt) else attempt);
                 attempt' = attempt' @ '']}'';
                 (tried, v) = truncation_loop loads rounds attempt'
             in (attempt # tried, v))
          else ([attempt], JNull))"

subsection \<open>The two recovery functions\<close>

text \<open>
  \<open>extract_json_robust\<close> of \<open>archive/scripts/retry_failed.py\<close>. The result is the value
  the Python returns, \<open>None\<close> (\<open>JNull\<close>) when every stage failed, together with the texts
  handed to \<open>json.loads\<close>, in order.
\<close>

definition extract_json_robust :: "loads \<Rightarrow> string \<Rightarrow> string list \<times> json" where
  "extract_json_robust loads raw0 =
     (if raw0 = [] then ([], JNull)
      else
        (let raw = (case fence_search raw0 of Some g \<Rightarrow> py_strip g | None \<Rightarrow> raw0) in
         case loads raw of
           Inr v \<Rightarrow> ([raw], v)
         | Inl _ \<Rightarrow>
             (let fixed = fix_trailing_commas raw in
              case loads fixed of
                Inr v \<Rightarrow> ([raw, fixed], v)
              | Inl _ \<Rightarrow>
                  (let candidate =
                         (case find_sub ''{'' raw of
                            None \<Rightarrow> None
                          | Some start \<Rightarrow>
                              map_option (\<lambda>n. take n (drop start raw))
                                (brace_scan 0 (drop start raw)));
                       tried = [raw, fixed] @ (case candidate of None \<Rightarrow> [] | Some sub \<Rightarrow> [sub])
                   in case (case candidate of
                              None \<Rightarrow> None
                            | Some sub \<Rightarrow> (case loads sub of Inr v \<Rightarrow> Some v | Inl _ \<Rightarrow> None)) of
                        Some v \<Rightarrow> (tried, v)
                      | None \<Rightarrow>
                          if prefix ''{'' (py_strip raw)
                          then (let (tried5, v) = truncation_loop loads 10 (py_strip raw)
                                in (tried @ tried5, v))
                          else (tried, JNull)))))"

text \<open>
  \<open>extract_json_from_response\<close> of \<open>archive/scripts/extract.py\<close>. \<open>raw.index("```", start)\<close>
  raises \<open>ValueError\<close> when no \<open>```\<close> follows \<open>start\<close>, and nothing catches it.
\<close>

definition extract_json_from_response :: "loads \<Rightarrow> string \<Rightarrow> py_error + string list \<times> json" where
  "extract_json_from_response loads raw0 =
     (if raw0 = [] then Inr ([], JNull)
      else
        (case (case find_sub ''```json'' raw0 of
                 Some p \<Rightarrow>
                   (let start = p + 7 in
                    case find_sub ''```'' (drop start raw0) of
                      None \<Rightarrow> Inl ValueError
                    | Some n \<Rightarrow> Inr (py_strip (take n (drop start raw0))))
               | None \<Rightarrow>
                   (case find_sub ''```'' raw0 of
                      Some p \<Rightarrow>
                        (let start = p + 3 in
                         case find_sub ''```'' (drop start raw0) of
                           None \<Rightarrow> Inl ValueError
                         | Some n \<Rightarrow> Inr (py_strip (take n (drop start raw0))))
                    | None \<Rightarrow> Inr raw0)) of
           Inl err \<Rightarrow> Inl err
         | Inr raw \<Rightarrow>
             (case loads raw of
                Inr v \<Rightarrow> Inr ([raw], v)
              | Inl _ \<Rightarrow>
                  (let stripped = py_strip raw in
                   if prefix ''{'' stripped \<or> prefix ''['' stripped
                   then
                     (let fixed = remove_comma_before (CHR ''}'') stripped;
                          fixed = remove_comma_before (CHR '']'') fixed
                      in case loads fixed of
                           Inr v \<Rightarrow> Inr ([raw, fixed], v)
                         | Inl _ \<Rightarrow> Inr ([raw, fixed], JNull))
                   else Inr ([raw], JNull)))))"

section \<open>An instance of the library boundary\<close>

text \<open>
  The theorems about the recovery functions hold for every \<open>loads\<close>. Their witnesses
  and counterexamples need one to run; \<open>py_json_loads\<close> follows CPython's
  \<open>json.decoder\<close> (\<open>scan_once\<close>, \<open>JSONObject\<close>, \<open>JSONArray\<close>, \<open>py_scanstring\<close>) and returns its
  messages as of Python 3.12, without the position suffix \<open>": line l column c (char n)"\<close>
  (which holds no comma, brace, bracket or letter \<open>E\<close>). It covers the JSON grammar
  except float literals, \<open>\u\<close> escapes and the constants \<open>NaN\<close> and \<open>Infinity\<close>; on a text
  that contains one of those it reports a failure where Python parses, and no example
  below contains one. \<open>py_json_dumps\<close> is \<open>json.dumps\<close> with its default separators; for
  a float leaf it writes the exact decimal expansion, where Python writes the shortest
  literal that reads back as the same float.
\<close>

datatype 'a scanned = Scanned 'a string | Failed string

definition json_ws :: "char \<Rightarrow> bool" where
  "json_ws c = (c = CHR '' '' \<or> c = CHR 0x09 \<or> c = CHR 0x0A \<or> c = CHR 0x0D)"

definition is_digit :: "char \<Rightarrow> bool" where
  "is_digit c = (48 \<le> (of_char c :: nat) \<and> (of_char c :: nat) \<le> 57)"

definition unescape :: "char \<Rightarrow> char option" where
  "unescape e =
     (if e = CHR 0x22 then Some (CHR 0x22)
      else if e = CHR 0x5C then Some (CHR 0x5C)
      else if e = CHR ''/'' then Some (CHR ''/'')
      else if e = CHR ''b'' then Some (CHR 0x08)
      else if e = CHR ''f'' then Some (CHR 0x0C)
      else if e = CHR ''n'' then Some (CHR 0x0A)
      else if e = CHR ''r'' then Some (CHR 0x0D)
      else if e = CHR ''t'' then Some (CHR 0x09)
      else None)"

text \<open>\<open>py_scanstring\<close>, from the character after the opening quote.\<close>

fun scanstring :: "string \<Rightarrow> string \<Rightarrow> string scanned" where
  "scanstring acc [] = Failed ''Unterminated string starting at''"
| "scanstring acc [c] =
     (if c = CHR 0x22 then Scanned (rev acc) []
      else Failed ''Unterminated string starting at'')"
| "scanstring acc (c # e # cs) =
     (if c = CHR 0x22 then Scanned (rev acc) (e # cs)
      else if c = CHR 0x5C then
        (case unescape e of
           Some ch \<Rightarrow> scanstring (ch # acc) cs
         | None \<Rightarrow> Failed (''Invalid '' @ [CHR 0x5C] @ ''escape''))
      else if (of_char c :: nat) < 32 then Failed ''Invalid control character at''
      else scanstring (c # acc) (e # cs))"

definition digits_value :: "string \<Rightarrow> int" where
  "digits_value ds = foldl (\<lambda>n d. 10 * n + (int (of_char d) - 48)) 0 ds"

text \<open>
  \<open>NUMBER_RE\<close>: \<open>(-?(?:0|[1-9]\d*))(\.\d+)?([eE][-+]?\d+)?\<close>, \<open>None\<close> when it does not
  match at the start of the text.
\<close>

definition float_tail :: "string \<Rightarrow> bool" where
  "float_tail rest =
     (case rest of
        c # d # others \<Rightarrow>
          (c = CHR ''.'' \<and> is_digit d) \<or>
          ((c = CHR ''e'' \<or> c = CHR ''E'') \<and>
             (is_digit d \<or>
              ((d = CHR ''+'' \<or> d = CHR ''-'') \<and> (case others of [] \<Rightarrow> False | f # _ \<Rightarrow> is_digit f))))
      | _ \<Rightarrow> False)"

definition scan_number :: "string \<Rightarrow> json scanned option" where
  "scan_number s =
     (let negative = (case s of [] \<Rightarrow> False | c # _ \<Rightarrow> c = CHR ''-'');
          body = (if negative then tl s else s)
      in case body of
           [] \<Rightarrow> None
         | d # _ \<Rightarrow>
             if \<not> is_digit d then None
             else
               (let intpart = (if d = CHR ''0'' then [d] else takeWhile is_digit body);
                    rest = drop (length intpart) body
                in if float_tail rest then Some (Failed ''float literal'')
                   else Some (Scanned (JInt ((if negative then - 1 else 1) * digits_value intpart))
                                rest)))"

text \<open>The messages \<open>Expecting ',' delimiter\<close> and \<open>Expecting ':' delimiter\<close>.\<close>

definition expecting_comma :: string where
  "expecting_comma = ''Expecting '' @ [CHR 0x27, CHR '','', CHR 0x27] @ '' delimiter''"

definition expecting_colon :: string where
  "expecting_colon = ''Expecting '' @ [CHR 0x27, CHR '':'', CHR 0x27] @ '' delimiter''"

text \<open>\<open>dict\<close> assignment: a key already present keeps its place and takes the new value.\<close>

fun dict_set :: "string \<Rightarrow> json \<Rightarrow> (string \<times> json) list \<Rightarrow> (string \<times> json) list" where
  "dict_set k v [] = [(k, v)]"
| "dict_set k v ((k', v') # kvs) = (if k = k' then (k, v) # kvs else (k', v') # dict_set k v kvs)"

text \<open>
  \<open>scan_once\<close> with the loops of \<open>JSONArray\<close> (from the start of an element) and
  \<open>JSONObject\<close> (from the character after a key's opening quote). The first argument
  bounds the depth of calls; \<open>py_json_loads\<close> starts it above twice the length of the
  text, which no chain of calls reaches, since every second call has read a character.
\<close>

fun scan_once :: "nat \<Rightarrow> string \<Rightarrow> json scanned"
and json_array :: "nat \<Rightarrow> json list \<Rightarrow> string \<Rightarrow> json scanned"
and json_object :: "nat \<Rightarrow> (string \<times> json) list \<Rightarrow> string \<Rightarrow> json scanned"
where
  "scan_once 0 s = Failed ''recursion''"
| "scan_once (Suc fuel) [] = Failed ''Expecting value''"
| "scan_once (Suc fuel) (c # cs) =
     (if c = CHR 0x22 then
        (case scanstring [] cs of
           Scanned str rest \<Rightarrow> Scanned (JStr str) rest
         | Failed msg \<Rightarrow> Failed msg)
      else if c = CHR ''{'' then
        (case dropWhile json_ws cs of
           [] \<Rightarrow> Failed ''Expecting property name enclosed in double quotes''
         | d # rest \<Rightarrow>
             if d = CHR ''}'' then Scanned (JObj []) rest
             else if d = CHR 0x22 then json_object fuel [] rest
             else Failed ''Expecting property name enclosed in double quotes'')
      else if c = CHR ''['' then
        (case dropWhile json_ws cs of
           [] \<Rightarrow> Failed ''Expecting value''
         | d # rest \<Rightarrow>
             if d = CHR '']'' then Scanned (JArr []) rest
             else json_array fuel [] (d # rest))
      else if prefix ''null'' (c # cs) then Scanned JNull (drop 4 (c # cs))
      else if prefix ''true'' (c # cs) then Scanned (JBool True) (drop 4 (c # cs))
      else if prefix ''false'' (c # cs) then Scanned (JBool False) (drop 5 (c # cs))
      else
        (case scan_number (c # cs) of
           Some r \<Rightarrow> r
         | None \<Rightarrow> Failed ''Expecting value''))"
| "json_array 0 acc s = Failed ''recursion''"
| "json_array (Suc fuel) acc s =
     (case scan_once fuel s of
        Failed msg \<Rightarrow> Failed msg
      | Scanned v rest \<Rightarrow>
          (case dropWhile json_ws rest of
             [] \<Rightarrow> Failed expecting_comma
           | d # rest' \<Rightarrow>
               if d = CHR '']'' then Scanned (JArr (rev (v # acc))) rest'
               else if d = CHR '','' then json_array fuel (v # acc) (dropWhile json_ws rest')
               else Failed expecting_comma))"
| "json_object 0 acc s = Failed ''recursion''"
| "json_object (Suc fuel) acc s =
     (case scanstring [] s of
        Failed msg \<Rightarrow> Failed msg
      | Scanned key rest \<Rightarrow>
          (case dropWhile json_ws rest of
             [] \<Rightarrow> Failed expecting_colon
           | d # rest' \<Rightarrow>
               if d \<noteq> CHR '':'' then Failed expecting_colon
               else
                 (case scan_once fuel (dropWhile json_ws rest') of
                    Failed msg \<Rightarrow> Failed msg
                  | Scanned v rest2 \<Rightarrow>
                      (case dropWhile json_ws rest2 of
                         [] \<Rightarrow> Failed expecting_comma
                       | d2 # rest3 \<Rightarrow>
                           if d2 = CHR ''}'' then Scanned (JObj (dict_set key v acc)) rest3
                           else if d2 = CHR '','' then
                             (case dropWhile json_ws rest3 of
                                [] \<Rightarrow> Failed ''Expecting property name enclosed in double quotes''
                              | d3 # rest4 \<Rightarrow>
                                  if d3 = CHR 0x22 then json_object fuel (dict_set key v acc) rest4
                                  else Failed ''Expecting property name enclosed in double quotes'')
                           else Failed expecting_comma))))"

definition py_json_loads :: loads where
  "py_json_loads s =
     (case scan_once (2 * length s + 2) (dropWhile json_ws s) of
        Failed msg \<Rightarrow> Inl msg
      | Scanned v rest \<Rightarrow> if dropWhile json_ws rest = [] then Inr v else Inl ''Extra data'')"

text \<open>\<open>json.dumps\<close>: decimal digits, string escapes (\<open>ensure_ascii\<close>), and the walk.\<close>

function nat_digits :: "nat \<Rightarrow> string" where
  "nat_digits n =
     (if n < 10 then [char_of (48 + n)]
      else nat_digits (n div 10) @ [char_of (48 + n mod 10)])"
  by pat_completeness auto
termination
  by (relation "measure id") auto

declare nat_digits.simps [simp del]

definition int_digits :: "int \<Rightarrow> string" where
  "int_digits i = (if i < 0 then ''-'' @ nat_digits (nat (- i)) else nat_digits (nat i))"

definition float_digits :: "int \<Rightarrow> int \<Rightarrow> string" where
  "float_digits m e =
     (if 0 \<le> e then int_digits (m * 2 ^ nat e) @ ''.0''
      else
        (let k = nat (- e);
             ds = nat_digits (nat \<bar>m\<bar> * 5 ^ k);
             ds = replicate (Suc k - length ds) (CHR ''0'') @ ds
         in (if m < 0 then ''-'' else []) @
            take (length ds - k) ds @ ''.'' @ drop (length ds - k) ds))"

definition hex_digit :: "nat \<Rightarrow> char" where
  "hex_digit n = (if n < 10 then char_of (48 + n) else char_of (87 + n))"

definition escape_char :: "char \<Rightarrow> string" where
  "escape_char c =
     (let n = (of_char c :: nat) in
      if c = CHR 0x22 then [CHR 0x5C, CHR 0x22]
      else if c = CHR 0x5C then [CHR 0x5C, CHR 0x5C]
      else if c = CHR 0x0A then [CHR 0x5C, CHR ''n'']
      else if c = CHR 0x0D then [CHR 0x5C, CHR ''r'']
      else if c = CHR 0x09 then [CHR 0x5C, CHR ''t'']
      else if c = CHR 0x08 then [CHR 0x5C, CHR ''b'']
      else if c = CHR 0x0C then [CHR 0x5C, CHR ''f'']
      else if n < 32 \<or> 126 < n
      then [CHR 0x5C, CHR ''u'', CHR ''0'', CHR ''0'', hex_digit (n div 16), hex_digit (n mod 16)]
      else [c])"

definition quote_string :: "string \<Rightarrow> string" where
  "quote_string s = [CHR 0x22] @ concat (map escape_char s) @ [CHR 0x22]"

fun py_json_dumps :: "json \<Rightarrow> string"
and dumps_members :: "(string \<times> json) list \<Rightarrow> string"
and dumps_items :: "json list \<Rightarrow> string"
where
  "py_json_dumps JNull = ''null''"
| "py_json_dumps (JBool b) = (if b then ''true'' else ''false'')"
| "py_json_dumps (JInt i) = int_digits i"
| "py_json_dumps (JFloat m e) = float_digits m e"
| "py_json_dumps (JStr s) = quote_string s"
| "py_json_dumps (JArr xs) = ''['' @ dumps_items xs @ '']''"
| "py_json_dumps (JObj kvs) = ''{'' @ dumps_members kvs @ ''}''"
| "dumps_members [] = []"
| "dumps_members ((k, v) # kvs) =
     quote_string k @ '': '' @ py_json_dumps v @ (if kvs = [] then [] else '', '' @ dumps_members kvs)"
| "dumps_items [] = []"
| "dumps_items (x # xs) =
     py_json_dumps x @ (if xs = [] then [] else '', '' @ dumps_items xs)"

section \<open>Batch orchestrator\<close>

subsection \<open>The model call\<close>

text \<open>
  What one HTTP attempt of the model call comes to: status 429, an exception raised
  inside the \<open>try\<close> block (by \<open>requests.post\<close>, \<open>raise_for_status\<close>, \<open>resp.json\<close> or the
  reading of the reply) with its text, or a reply read to the end, with its content and
  its thinking text. The network is outside the repository: the functions take the
  outcome of each attempt as the parameter \<open>attempts\<close>, by attempt number.
\<close>

datatype response =
    Rate_limited
  | Raised string
  | Completed string string

text \<open>
  The dict that describes one page: returned by \<open>call_gemini\<close>, completed by
  \<open>process_page\<close>, stored as \<open>pages/page_NNN.json\<close> and collected by \<open>main\<close>. An optional
  field is \<open>None\<close> when the dict has no such key. (The \<open>usage\<close> field, copied from the reply
  and never read, is left out.)
\<close>

record page_result =
  pr_page :: nat
  pr_book_page :: nat
  pr_raw_response :: "string option"
  pr_thinking :: "string option"
  pr_parsed_json :: "json option"
  pr_error :: "string option"
  pr_status :: string

text \<open>
  What a function does besides returning: a request posted (by attempt number), a
  \<open>time.sleep\<close> (in seconds), a page file read or written (by page number, from 1), a
  call of the retry script's \<open>process_page\<close> (by its argument, from 0), and the combined
  file \<open>all_results.json\<close> written (with the records it is given).
\<close>

datatype event =
    Post nat
  | Sleep nat
  | Read nat
  | Write nat
  | Invoke nat
  | Write_all_results "page_result list"

text \<open>
  \<open>call_gemini\<close> of \<open>archive/scripts/extract.py\<close>: the loop \<open>for attempt in range(3)\<close>.
  When the loop runs out, the function ends without a \<open>return\<close> statement and Python
  returns \<open>None\<close>.
\<close>

fun call_gemini_loop ::
  "nat \<Rightarrow> (nat \<Rightarrow> response) \<Rightarrow> nat list \<Rightarrow> event list \<times> page_result option" where
  "call_gemini_loop page_num attempts [] = ([], None)"
| "call_gemini_loop page_num attempts (attempt # later) =
     (case attempts attempt of
        Rate_limited \<Rightarrow>
          (let wait = 2 ^ (attempt + 1) + 5;
               (log, r) = call_gemini_loop page_num attempts later
           in (Post attempt # Sleep wait # log, r))
      | Completed content thinking \<Rightarrow>
          ([Post attempt],
           Some \<lparr>pr_page = page_num + 1, pr_book_page = page_num + 37,
                 pr_raw_response = Some content, pr_thinking = Some thinking,
                 pr_parsed_json = None, pr_error = None, pr_status = ''success''\<rparr>)
      | Raised e \<Rightarrow>
          if attempt < 2
          then
            (let wait = 2 ^ (attempt + 1);
                 (log, r) = call_gemini_loop page_num attempts later
             in (Post attempt # Sleep wait # log, r))
          else
            ([Post attempt],
             Some \<lparr>pr_page = page_num + 1, pr_book_page = page_num + 37,
                   pr_raw_response = Some [], pr_thinking = Some [],
                   pr_parsed_json = None, pr_error = Some e, pr_status = ''failed''\<rparr>))"

definition call_gemini :: "nat \<Rightarrow> (nat \<Rightarrow> response) \<Rightarrow> event list \<times> page_result option" where
  "call_gemini page_num attempts = call_gemini_loop page_num attempts [0, 1, 2]"

subsection \<open>The first pass\<close>

text \<open>
  \<open>str(e)\<close> of the two exceptions: \<open>substring not found\<close> and
  \<open>'NoneType' object has no attribute 'get'\<close> (\<open>CHR 0x27\<close> is the single quote).
\<close>

fun error_text :: "py_error \<Rightarrow> string" where
  "error_text ValueError = ''substring not found''"
| "error_text AttributeError =
     [CHR 0x27] @ ''NoneType'' @ [CHR 0x27] @ '' object has no attribute '' @
     [CHR 0x27] @ ''get'' @ [CHR 0x27]"

text \<open>
  \<open>process_page\<close> of \<open>archive/scripts/extract.py\<close>, after the page image is made. On
  \<open>None\<close> from \<open>call_gemini\<close>, \<open>result.get\<close> raises \<open>AttributeError\<close>; a \<open>ValueError\<close> of
  \<open>extract_json_from_response\<close> passes through. When nothing is raised the result is
  written to the page's file and returned.
\<close>

definition extract_process_page ::
  "loads \<Rightarrow> nat \<Rightarrow> (nat \<Rightarrow> response) \<Rightarrow> event list \<times> (py_error + page_result)" where
  "extract_process_page loads page_num attempts =
     (let (log, called) = call_gemini page_num attempts in
      case called of
        None \<Rightarrow> (log, Inl AttributeError)
      | Some result \<Rightarrow>
          (case extract_json_from_response loads (get_or [] (pr_raw_response result)) of
             Inl err \<Rightarrow> (log, Inl err)
           | Inr (tried, parsed) \<Rightarrow>
               (let result = result\<lparr>pr_parsed_json := Some parsed\<rparr>;
                    result = (if py_truthy parsed then result\<lparr>pr_status := ''success''\<rparr>
                              else if pr_status result = ''success''
                              then result\<lparr>pr_status := ''json_parse_failed''\<rparr>
                              else result)
                in (log @ [Write (page_num + 1)], Inr result))))"

text \<open>
  The entry \<open>main\<close> appends for one finished future: its result, or the dict made from
  the exception it raised.
\<close>

definition collected :: "loads \<Rightarrow> (nat \<Rightarrow> nat \<Rightarrow> response) \<Rightarrow> nat \<Rightarrow> page_result" where
  "collected loads attempts page_num =
     (case snd (extract_process_page loads page_num (attempts page_num)) of
        Inr result \<Rightarrow> result
      | Inl e \<Rightarrow>
          \<lparr>pr_page = page_num + 1, pr_book_page = page_num + 37,
           pr_raw_response = None, pr_thinking = None, pr_parsed_json = None,
           pr_error = Some (error_text e), pr_status = ''exception''\<rparr>)"

record run_summary =
  sm_total_pages :: nat
  sm_success :: nat
  sm_json_parse_failed :: nat
  sm_api_failed :: nat
  sm_failed_pages :: "nat list"

text \<open>
  \<open>main\<close> of \<open>archive/scripts/extract.py\<close>: \<open>completed\<close> is the order in which
  \<open>as_completed\<close> yields the futures of the pages \<open>range(total_pages)\<close>; the pool gives no
  other guarantee. The results are sorted by page, counted and summarised
  (\<open>elapsed_seconds\<close>, a wall-clock reading, is left out).
\<close>

definition extract_main ::
  "loads \<Rightarrow> nat \<Rightarrow> (nat \<Rightarrow> nat \<Rightarrow> response) \<Rightarrow> nat list \<Rightarrow> page_result list \<times> run_summary" where
  "extract_main loads total_pages attempts completed =
     (let results = map (collected loads attempts) completed;
          results = sort_key pr_page results;
          success = length (filter (\<lambda>r. py_truthy (get_or JNull (pr_parsed_json r))) results);
          failed = length (filter (\<lambda>r. pr_status r \<noteq> ''success'') results);
          json_fail = length (filter (\<lambda>r. pr_status r = ''json_parse_failed'') results)
      in (results,
          \<lparr>sm_total_pages = total_pages, sm_success = success,
           sm_json_parse_failed = json_fail, sm_api_failed = failed,
           sm_failed_pages = map pr_page (filter (\<lambda>r. pr_status r \<noteq> ''success'') results)\<rparr>))"

text \<open>
  The page files, by page number; \<open>None\<close> is a file that does not exist. After the first
  pass a page's file is the result its \<open>process_page\<close> wrote, and is as it was when
  \<open>process_page\<close> raised before writing.
\<close>

type_synonym store = "nat \<Rightarrow> page_result option"

definition store_after_run ::
  "loads \<Rightarrow> nat \<Rightarrow> (nat \<Rightarrow> nat \<Rightarrow> response) \<Rightarrow> store \<Rightarrow> store" where
  "store_after_run loads total_pages attempts earlier =
     (\<lambda>page.
        if 1 \<le> page \<and> page \<le> total_pages
        then (case snd (extract_process_page loads (page - 1) (attempts (page - 1))) of
                Inr result \<Rightarrow> Some result
              | Inl _ \<Rightarrow> earlier page)
        else earlier page)"

subsection \<open>The retry pass\<close>

text \<open>
  An exception that leaves \<open>process_page\<close> of \<open>archive/scripts/retry_failed.py\<close>:
  \<open>IndexError\<close> from \<open>doc[page_num]\<close>, which the PDF library raises for a page number the
  document does not have, and \<open>UnboundLocalError\<close> from \<open>return result\<close>.
\<close>

datatype retry_error =
    IndexError nat
  | UnboundLocalError

text \<open>
  The loop \<open>for attempt in range(3)\<close> of \<open>process_page\<close>, with the variable \<open>result\<close>,
  unassigned (\<open>None\<close> here) until a reply has been read. It returns the events, the file
  contents it wrote, in order, and its result; \<open>return result\<close> after the loop raises
  \<open>UnboundLocalError\<close> when no attempt assigned it.
\<close>

fun retry_page_loop ::
  "loads \<Rightarrow> nat \<Rightarrow> (nat \<Rightarrow> response) \<Rightarrow> page_result option \<Rightarrow> nat list \<Rightarrow>
   event list \<times> page_result list \<times> (retry_error + page_result)" where
  "retry_page_loop loads page_num attempts result [] =
     ([], [], case result of None \<Rightarrow> Inl UnboundLocalError | Some r \<Rightarrow> Inr r)"
| "retry_page_loop loads page_num attempts result (attempt # later) =
     (case attempts attempt of
        Rate_limited \<Rightarrow>
          (let (log, written, r) = retry_page_loop loads page_num attempts result later
           in (Post attempt # Sleep (5 * (attempt + 1)) # log, written, r))
      | Raised e \<Rightarrow>
          (let (log, written, r) = retry_page_loop loads page_num attempts result later
           in (Post attempt # Sleep 3 # log, written, r))
      | Completed content thinking \<Rightarrow>
          (let parsed = snd (extract_json_robust loads content);
               new = \<lparr>pr_page = page_num + 1, pr_book_page = page_num + 37,
                      pr_raw_response = Some content, pr_thinking = Some thinking,
                      pr_parsed_json = Some parsed, pr_error = None,
                      pr_status = (if py_truthy parsed then ''success''
                                   else ''json_parse_failed'')\<rparr>
           in if py_truthy parsed
              then ([Post attempt, Write (page_num + 1)], [new], Inr new)
              else
                (let (log, written, r) = retry_page_loop loads page_num attempts (Some new) later
                 in (Post attempt # Write (page_num + 1) # log, new # written, r))))"

text \<open>
  \<open>process_page\<close> of \<open>archive/scripts/retry_failed.py\<close>. It opens the PDF, of
  \<open>total_pages\<close> pages, and takes \<open>doc[page_num]\<close> before anything else, outside every
  \<open>try\<close>.
\<close>

definition retry_process_page ::
  "loads \<Rightarrow> nat \<Rightarrow> nat \<Rightarrow> (nat \<Rightarrow> response) \<Rightarrow>
   event list \<times> page_result list \<times> (retry_error + page_result)" where
  "retry_process_page loads total_pages page_num attempts =
     (if page_num < total_pages
      then retry_page_loop loads page_num attempts None [0, 1, 2]
      else ([], [], Inl (IndexError page_num)))"

text \<open>The test of the first loop of \<open>main\<close>: the page's file is missing or not a success.\<close>

definition needs_retry :: "store \<Rightarrow> nat \<Rightarrow> bool" where
  "needs_retry files i =
     (case files i of
        None \<Rightarrow> True
      | Some d \<Rightarrow> pr_status d \<noteq> ''success'' \<or> \<not> py_truthy (get_or JNull (pr_parsed_json d)))"

text \<open>
  The pool of \<open>main\<close>: one \<open>process_page\<close> per failed page. Each call writes its own
  page's file only and reads none, so the files after the pool do not depend on how the
  calls interleave; the model runs them in the order of the list. \<open>after_writes\<close> is a
  file after contents have been written to it one after the other. The third component
  lists the calls that raised, each with its exception.
\<close>

definition after_writes :: "store \<Rightarrow> nat \<Rightarrow> page_result list \<Rightarrow> store" where
  "after_writes files i contents = (if contents = [] then files else files(i := Some (last contents)))"

fun retry_pool ::
  "loads \<Rightarrow> nat \<Rightarrow> (nat \<Rightarrow> nat \<Rightarrow> response) \<Rightarrow> nat list \<Rightarrow> store \<Rightarrow>
   event list \<times> store \<times> (nat \<times> retry_error) list" where
  "retry_pool loads total_pages attempts [] files = ([], files, [])"
| "retry_pool loads total_pages attempts (p # failed) files =
     (let (log, written, r) = retry_process_page loads total_pages p (attempts p);
          files = after_writes files (p + 1) written;
          (log', files', raised) = retry_pool loads total_pages attempts failed files
      in (Invoke p # log @ log', files',
          case r of Inl e \<Rightarrow> (p, e) # raised | Inr _ \<Rightarrow> raised))"

text \<open>
  The loop "re-parse with robust parser" of \<open>main\<close>, over the pages \<open>is\<close>: a file that
  exists is read; when it has no parsed Document but a raw response that
  \<open>extract_json_robust\<close> recovers, it is rewritten as a success.
\<close>

fun reparse_loop :: "loads \<Rightarrow> nat list \<Rightarrow> store \<Rightarrow> event list \<times> store" where
  "reparse_loop loads [] files = ([], files)"
| "reparse_loop loads (i # is) files =
     (case files i of
        None \<Rightarrow> reparse_loop loads is files
      | Some d \<Rightarrow>
          if \<not> py_truthy (get_or JNull (pr_parsed_json d)) \<and> get_or [] (pr_raw_response d) \<noteq> []
          then
            (let parsed = snd (extract_json_robust loads (get_or [] (pr_raw_response d))) in
             if py_truthy parsed
             then
               (let (log, files') =
                      reparse_loop loads is
                        (files(i := Some (d\<lparr>pr_parsed_json := Some parsed, pr_status := ''success''\<rparr>)))
                in (Read i # Write i # log, files'))
             else (let (log, files') = reparse_loop loads is files in (Read i # log, files')))
          else (let (log, files') = reparse_loop loads is files in (Read i # log, files')))"

text \<open>
  \<open>main\<close> of \<open>archive/scripts/retry_failed.py\<close>. Its three loops run over
  \<open>range(1, 85)\<close>, whatever the number \<open>total_pages\<close> of pages of the PDF is. The pool
  runs every call to its end; then \<open>future.result()\<close> raises again the exception of the
  first future that \<open>as_completed\<close> yields and that raised. \<open>completed\<close> is the order in
  which \<open>as_completed\<close> yields the futures, by page argument; a future it does not name
  counts as yielded after those it names. The function returns the events, the page files
  afterwards, and either the exception that ended it or the final count of pages with a
  parsed Document (\<open>None\<close> when it returned early because no page had failed).
\<close>

definition retry_pages :: "nat list" where
  "retry_pages = [1 ..< 85]"

definition retry_main ::
  "loads \<Rightarrow> nat \<Rightarrow> (nat \<Rightarrow> nat \<Rightarrow> response) \<Rightarrow> nat list \<Rightarrow> store \<Rightarrow>
   event list \<times> store \<times> (retry_error + nat option)" where
  "retry_main loads total_pages attempts completed files =
     (let failed = map (\<lambda>i. i - 1) (filter (needs_retry files) retry_pages);
          scan = map Read (filter (\<lambda>i. files i \<noteq> None) retry_pages)
      in if failed = [] then (scan, files, Inr None)
         else
           (let (pool_log, files1, raised) = retry_pool loads total_pages attempts failed files in
            case List.map_filter (map_of raised) (completed @ map fst raised) of
              e # _ \<Rightarrow> (scan @ pool_log, files1, Inl e)
            | [] \<Rightarrow>
                (let (reparse_log, files2) = reparse_loop loads retry_pages files1;
                     results = List.map_filter files2 retry_pages;
                     success = length (filter (\<lambda>r. py_truthy (get_or JNull (pr_parsed_json r)))
                                         results)
                 in (scan @ pool_log @ reparse_log @
                       map Read (filter (\<lambda>i. files2 i \<noteq> None) retry_pages) @
                       [Write_all_results results],
                     files2, Inr (Some success)))))"

section \<open>Notions the merger's properties are stated with\<close>

text \<open>
  Two Documents have the same shape when they agree everywhere except in the content of
  string leaves: a mapping has the same keys in the same order, a sequence has the same
  length, and a leaf that is not a string is the same leaf.
\<close>

fun same_shape :: "json \<Rightarrow> json \<Rightarrow> bool"
and same_shape_dict :: "(string \<times> json) list \<Rightarrow> (string \<times> json) list \<Rightarrow> bool"
and same_shape_list :: "json list \<Rightarrow> json list \<Rightarrow> bool"
where
  "same_shape (JStr s) b = (case b of JStr t \<Rightarrow> True | _ \<Rightarrow> False)"
| "same_shape (JArr xs) b = (case b of JArr ys \<Rightarrow> same_shape_list xs ys | _ \<Rightarrow> False)"
| "same_shape (JObj kvs) b = (case b of JObj kvs' \<Rightarrow> same_shape_dict kvs kvs' | _ \<Rightarrow> False)"
| "same_shape a b = (a = b)"
| "same_shape_dict [] kvs' = (kvs' = [])"
| "same_shape_dict ((k, v) # kvs) kvs' =
     (case kvs' of [] \<Rightarrow> False
      | (k', v') # rest \<Rightarrow> k = k' \<and> same_shape v v' \<and> same_shape_dict kvs rest)"
| "same_shape_list [] ys = (ys = [])"
| "same_shape_list (x # xs) ys =
     (case ys of [] \<Rightarrow> False | y # rest \<Rightarrow> same_shape x y \<and> same_shape_list xs rest)"

text \<open>Every key of every mapping of a Document, in the order the walk meets them.\<close>

fun all_keys :: "json \<Rightarrow> string list"
and all_keys_dict :: "(string \<times> json) list \<Rightarrow> string list"
and all_keys_list :: "json list \<Rightarrow> string list"
where
  "all_keys (JObj kvs) = all_keys_dict kvs"
| "all_keys (JArr xs) = all_keys_list xs"
| "all_keys v = []"
| "all_keys_dict [] = []"
| "all_keys_dict ((k, v) # kvs) = k # all_keys v @ all_keys_dict kvs"
| "all_keys_list [] = []"
| "all_keys_list (x # xs) = all_keys x @ all_keys_list xs"

text \<open>
  An issue whose original or corrected text is missing or empty, or whose two texts are
  equal.
\<close>

definition degenerate :: "issue \<Rightarrow> bool" where
  "degenerate i =
     (original_text i = None \<or> original_text i = Some [] \<or>
      corrected_text i = None \<or> corrected_text i = Some [] \<or>
      original_text i = corrected_text i)"

subsection \<open>Example data\<close>

text \<open>A page, an issue that replaces \<open>cat\<close> by \<open>dog\<close>, and the page after it.\<close>

definition cat_page :: json where
  "cat_page = JObj [(''text'', JStr ''the cat sat''), (''cat'', JArr [JInt 3, JStr ''cat'', JNull])]"

definition cat_to_dog :: issue where
  "cat_to_dog = \<lparr>original_text = Some ''cat'', corrected_text = Some ''dog'',
                  issue_type = None, severity = Some (JStr ''minor''), location = None\<rparr>"

definition dog_page :: json where
  "dog_page = JObj [(''text'', JStr ''the dog sat''), (''cat'', JArr [JInt 3, JStr ''dog'', JNull])]"

text \<open>The same issue with \<open>null\<close> for its type, severity and location.\<close>

definition cat_to_dog_nulls :: issue where
  "cat_to_dog_nulls = \<lparr>original_text = Some ''cat'', corrected_text = Some ''dog'',
                        issue_type = Some JNull, severity = Some JNull, location = Some JNull\<rparr>"

text \<open>An issue with no corrected text.\<close>

definition no_corrected_text :: issue where
  "no_corrected_text = \<lparr>original_text = Some ''cat'', corrected_text = None,
                         issue_type = None, severity = None, location = None\<rparr>"

text \<open>
  The page's OCR record, and QA records that carry the string \<open>"null"\<close>, an empty
  mapping and a page about a bird as their \<open>corrected_json\<close>.
\<close>

definition cat_ocr :: ocr_data where
  "cat_ocr = \<lparr>ocr_parsed_json = Some cat_page, ocr_book_page = Some (JInt 37)\<rparr>"

definition qa_null_string :: qa_data where
  "qa_null_string = \<lparr>q_overall_quality = None, q_summary = None,
                      q_corrected_json = Some (JStr ''null''), q_issues = Some [cat_to_dog]\<rparr>"

definition qa_empty_doc :: qa_data where
  "qa_empty_doc = \<lparr>q_overall_quality = None, q_summary = None,
                    q_corrected_json = Some (JObj []), q_issues = Some [cat_to_dog]\<rparr>"

definition bird_page :: json where
  "bird_page = JObj [(''text'', JStr ''a bird'')]"

definition qa_bird :: qa_data where
  "qa_bird = \<lparr>q_overall_quality = Some (JStr ''good''), q_summary = None,
               q_corrected_json = Some bird_page,
               q_issues = Some [cat_to_dog, no_corrected_text, cat_to_dog]\<rparr>"

section \<open>Notions the recovery engine's properties are stated with\<close>

subsection \<open>The stages as the specification lists them\<close>











subsection \<open>Fences in a serialization\<close>

text \<open>
  A text holds a fence pair when a second \<open>```\<close> begins after the end of its first
  \<open>```\<close>.
\<close>

definition fence_pair :: "string \<Rightarrow> bool" where
  "fence_pair s =
     (case find_sub ''```'' s of
        None \<Rightarrow> False
      | Some p \<Rightarrow> sublist ''```'' (drop (p + 3) s))"

subsection \<open>Example texts and Documents\<close>


text \<open>A reply cut off inside its fenced block, and a text of three spaces.\<close>

definition open_fence :: string where
  "open_fence = ''```json {\"a\": 1}''"

definition three_spaces :: string where
  "three_spaces = ''   ''"

text \<open>
  A string Document made of a fenced \<open>1\<close>, and a mapping whose string leaf holds a brace,
  a comma before a bracket and a single fence.
\<close>

definition fenced_one :: json where
  "fenced_one = JStr ''```1```''"

definition braces_leaf :: json where
  "braces_leaf = JObj [(''text'', JStr ''a } b ,] ``` c'')]"

section \<open>Notions the orchestrator's properties are stated with\<close>

text \<open>The pages a log of events calls \<open>process_page\<close> for, writes and reads.\<close>

fun invoked :: "event list \<Rightarrow> nat list" where
  "invoked [] = []"
| "invoked (Invoke p # log) = p # invoked log"
| "invoked (e # log) = invoked log"

fun written :: "event list \<Rightarrow> nat list" where
  "written [] = []"
| "written (Write i # log) = i # written log"
| "written (e # log) = written log"

fun reads :: "event list \<Rightarrow> nat list" where
  "reads [] = []"
| "reads (Read i # log) = i # reads log"
| "reads (e # log) = reads log"

text \<open>The contents a log of events writes to \<open>all_results.json\<close>, one after the other.\<close>

fun combined :: "event list \<Rightarrow> page_result list list" where
  "combined [] = []"
| "combined (Write_all_results rs # log) = rs # combined log"
| "combined (e # log) = combined log"

text \<open>An output directory with no page file.\<close>

definition no_files :: store where
  "no_files = (\<lambda>page. None)"

text \<open>
  The items of a run over the pages 1 to \<open>n\<close> that fail, in ascending order: those whose
  collected status is not \<open>"success"\<close>.
\<close>

definition failed_items :: "loads \<Rightarrow> (nat \<Rightarrow> nat \<Rightarrow> response) \<Rightarrow> nat \<Rightarrow> nat list" where
  "failed_items loads attempts n =
     filter (\<lambda>i. pr_status (collected loads attempts (i - 1)) \<noteq> ''success'') [1 ..< n + 1]"

subsection \<open>Example runs\<close>

text \<open>A model call that is rate-limited on every attempt.\<close>

definition three_rate_limits :: "nat \<Rightarrow> response" where
  "three_rate_limits attempt = Rate_limited"

text \<open>
  The page numbers of the retry pass that follow the last page of a run over \<open>n\<close> pages.
\<close>

definition beyond_run :: "nat \<Rightarrow> nat list" where
  "beyond_run n = [n + 1 ..< 85]"

text \<open>
  A run where the model call raises on every attempt for page 2 and replies with prose
  for page 4; for every other page it replies with a JSON object. In the retry, page 2
  replies with an object and page 4 with prose again.
\<close>

definition two_failures :: "nat \<Rightarrow> nat \<Rightarrow> response" where
  "two_failures page_num attempt =
     (if page_num = 1 then Raised ''connection reset''
      else if page_num = 3 then Completed ''I could not read this page.'' []
      else Completed ''{\"page\": 1}'' ''thinking'')"

definition retry_replies :: "nat \<Rightarrow> nat \<Rightarrow> response" where
  "retry_replies page_num attempt =
     (if page_num = 1 then Completed ''{\"page\": 2}'' []
      else Completed ''Still unreadable.'' [])"

text \<open>The record of a page whose reply was that object.\<close>

definition object_page :: "nat \<Rightarrow> page_result" where
  "object_page page =
     \<lparr>pr_page = page, pr_book_page = page + 36, pr_raw_response = Some ''{\"page\": 1}'',
      pr_thinking = Some ''thinking'', pr_parsed_json = Some (JObj [(''page'', JInt 1)]),
      pr_error = None, pr_status = ''success''\<rparr>"

section \<open>Properties of the correction merger\<close>

subsection \<open>Induction over a Document and its two kinds of children\<close>

lemma json_walk_induct [case_names Null Bool Int Float Str Arr Obj Nil_dict Cons_dict Nil_list Cons_list]:
  fixes P :: "json \<Rightarrow> bool" and Q :: "(string \<times> json) list \<Rightarrow> bool" and R :: "json list \<Rightarrow> bool"
  assumes "P JNull" "\<And>b. P (JBool b)" "\<And>i. P (JInt i)" "\<And>m e. P (JFloat m e)" "\<And>s. P (JStr s)"
    and arr: "\<And>xs. R xs \<Longrightarrow> P (JArr xs)" and obj: "\<And>kvs. Q kvs \<Longrightarrow> P (JObj kvs)"
    and qn: "Q []" and qc: "\<And>k v kvs. P v \<Longrightarrow> Q kvs \<Longrightarrow> Q ((k, v) # kvs)"
    and rn: "R []" and rc: "\<And>x xs. P x \<Longrightarrow> R xs \<Longrightarrow> R (x # xs)"
  shows "P a" and "Q kvs" and "R xs"
proof -
  have rl: "R ys" if "\<And>y. y \<in> set ys \<Longrightarrow> P y" for ys
    using that by (induction ys) (auto intro: rn rc)
  have ql: "Q ps" if "\<And>k v. (k, v) \<in> set ps \<Longrightarrow> P v" for ps
    using that by (induction ps) (auto intro: qn qc)
  have pa: "P b" for b
  proof (induction b)
    case (JArr x)
    then show ?case by (intro arr rl)
  next
    case (JObj x)
    have "P v" if "(k, v) \<in> set x" for k v
      using JObj [of "(k, v)" v] that by simp
    then show ?case by (intro obj ql)
  qed (rule assms)+
  show "P a" by (rule pa)
  show "Q kvs" by (rule ql) (rule pa)
  show "R xs" by (rule rl) (rule pa)
qed

lemma replace_in_obj_eq:
  "replace_in_obj obj ot ct = apply_text_replacement_recursive obj ot ct"
  "rio_dict kvs ot ct = atrr_dict kvs ot ct"
  "rio_list xs ot ct = atrr_list xs ot ct"
proof (induction obj and kvs and xs rule: json_walk_induct)
  case (Cons_dict k v kvs)
  then show ?case by (cases v) (simp_all add: split_beta)
next
  case (Cons_list x xs)
  then show ?case by (cases x) (simp_all add: split_beta)
qed (simp_all add: split_beta)

subsection \<open>Tree structure\<close>

lemma same_shape_refl:
  "same_shape a a" "same_shape_dict kvs kvs" "same_shape_list xs xs"
  by (induction a and kvs and xs rule: json_walk_induct) auto

lemma same_shape_trans:
  "same_shape a b \<Longrightarrow> same_shape b c \<Longrightarrow> same_shape a c"
  "same_shape_dict kvs kvs' \<Longrightarrow> same_shape_dict kvs' kvs'' \<Longrightarrow> same_shape_dict kvs kvs''"
  "same_shape_list xs ys \<Longrightarrow> same_shape_list ys zs \<Longrightarrow> same_shape_list xs zs"
proof (induction a and kvs and xs arbitrary: b c and kvs' kvs'' and ys zs rule: json_walk_induct)
  case (Cons_dict k v kvs)
  then show ?case by (auto split: list.splits prod.splits)
next
  case (Cons_list x xs)
  then show ?case by (auto split: list.splits)
qed (auto split: json.splits)

lemma replacement_same_shape:
  "same_shape obj (fst (apply_text_replacement_recursive obj ot ct))"
  "same_shape_dict kvs (fst (atrr_dict kvs ot ct))"
  "same_shape_list xs (fst (atrr_list xs ot ct))"
proof (induction obj and kvs and xs rule: json_walk_induct)
  case (Cons_dict k v kvs)
  then show ?case by (cases v) (simp_all add: split_beta same_shape_refl)
next
  case (Cons_list x xs)
  then show ?case by (cases x) (simp_all add: split_beta same_shape_refl)
qed (simp_all add: split_beta)

lemma atc_loop_same_shape:
  "same_shape base cur \<Longrightarrow> same_shape base (fst (atc_loop cur log issues))"
proof (induction issues arbitrary: cur log)
  case Nil
  then show ?case by simp
next
  case (Cons i issues)
  let ?step = "replace_in_obj cur (get_or [] (original_text i)) (get_or [] (corrected_text i))"
  have "same_shape base (fst ?step)"
    unfolding replace_in_obj_eq
    using Cons.prems replacement_same_shape(1) same_shape_trans(1) by blast
  with Cons show ?case
    by (simp add: Let_def split_beta)
qed

lemma claude_issue_loop_same_shape:
  "same_shape base cur \<Longrightarrow> same_shape base (fst (claude_issue_loop cur had applied issues))"
proof (induction issues arbitrary: cur had applied)
  case Nil
  then show ?case by simp
next
  case (Cons i issues)
  let ?step = "apply_text_replacement_recursive cur (get_or [] (original_text i))
                 (get_or [] (corrected_text i))"
  have "same_shape base (fst ?step)"
    using Cons.prems replacement_same_shape(1) same_shape_trans(1) by blast
  with Cons show ?case
    by (simp add: Let_def split_beta)
qed

text \<open>
  C1. Fragment-mode merge keeps the tree structure of the base Document at every depth:
  after any list of issues, run by \<open>apply_text_corrections\<close> (Gemini) or by the issue loop
  of \<open>process_page\<close> (Claude), every mapping has the keys it had, every sequence the
  length it had, and every number, boolean and null leaf is unchanged; only the content
  of string leaves can differ.
\<close>

theorem fragment_merge_preserves_structure:
  "same_shape base (fst (apply_text_corrections base issues)) \<and>
   same_shape base (fst (claude_issue_loop base had applied issues))"
  by (simp add: apply_text_corrections_def atc_loop_same_shape claude_issue_loop_same_shape
        same_shape_refl)

lemma cat_page_gemini:
  "apply_text_corrections cat_page [cat_to_dog] = (dog_page, [Correction_applied ''cat'' ''dog'' 2])"
  by code_simp

lemma cat_page_claude:
  "claude_issue_loop cat_page False [] [cat_to_dog] =
     (dog_page, True, [Issue_applied (JStr ''unknown'') (JStr ''minor'') (JStr []) ''cat'' ''dog'' 2])"
  by code_simp

text \<open>
  A type, severity or location present as \<open>null\<close> is logged as \<open>null\<close>: the defaults of
  \<open>issue.get\<close> are for absent keys only.
\<close>

lemma null_fields_are_copied:
  "claude_issue_loop cat_page False [] [cat_to_dog_nulls] =
     (dog_page, True, [Issue_applied JNull JNull JNull ''cat'' ''dog'' 2])"
  by code_simp

theorem fragment_merge_preserves_structure_witness:
  "fst (apply_text_corrections cat_page [cat_to_dog]) = dog_page \<and>
   fst (claude_issue_loop cat_page False [] [cat_to_dog]) = dog_page \<and>
   same_shape cat_page dog_page"
  using fragment_merge_preserves_structure [of cat_page "[cat_to_dog]" False "[]"]
  unfolding cat_page_gemini cat_page_claude by simp

subsection \<open>Keys\<close>

lemma replacement_all_keys:
  "all_keys (fst (apply_text_replacement_recursive obj ot ct)) = all_keys obj"
  "all_keys_dict (fst (atrr_dict kvs ot ct)) = all_keys_dict kvs"
  "all_keys_list (fst (atrr_list xs ot ct)) = all_keys_list xs"
proof (induction obj and kvs and xs rule: json_walk_induct)
  case (Cons_dict k v kvs)
  then show ?case by (cases v) (simp_all add: split_beta)
next
  case (Cons_list x xs)
  then show ?case by (cases x) (simp_all add: split_beta)
qed (simp_all add: split_beta)

lemma atc_loop_all_keys:
  "all_keys (fst (atc_loop cur log issues)) = all_keys cur"
proof (induction issues arbitrary: cur log)
  case Nil
  then show ?case by simp
next
  case (Cons i issues)
  then show ?case
    by (simp add: Let_def split_beta replace_in_obj_eq replacement_all_keys)
qed

lemma claude_issue_loop_all_keys:
  "all_keys (fst (claude_issue_loop cur had applied issues)) = all_keys cur"
proof (induction issues arbitrary: cur had applied)
  case Nil
  then show ?case by simp
next
  case (Cons i issues)
  then show ?case
    by (simp add: Let_def split_beta replacement_all_keys)
qed

text \<open>
  C10. Replacement visits mapping values and sequence elements, never keys: after one
  replacement (\<open>apply_text_replacement_recursive\<close>, \<open>_replace_in_obj\<close>) and after a whole
  list of issues, every mapping of the Document has, at every depth, exactly the key
  strings it had, whatever the issue's original text is.
\<close>

theorem replacement_never_rewrites_keys:
  "all_keys (fst (apply_text_replacement_recursive obj original corrected)) = all_keys obj \<and>
   all_keys (fst (replace_in_obj obj original corrected)) = all_keys obj \<and>
   all_keys (fst (claude_issue_loop obj had applied issues)) = all_keys obj \<and>
   all_keys (fst (apply_text_corrections obj issues)) = all_keys obj"
  by (simp add: replace_in_obj_eq replacement_all_keys claude_issue_loop_all_keys
        atc_loop_all_keys apply_text_corrections_def)

lemma cat_page_replaced:
  "apply_text_replacement_recursive cat_page ''cat'' ''dog'' = (dog_page, 2)"
  "replace_in_obj cat_page ''cat'' ''dog'' = (dog_page, 2)"
  by code_simp+

lemma dog_page_keys: "all_keys dog_page = [''text'', ''cat'']"
  by code_simp

theorem replacement_never_rewrites_keys_witness:
  "fst (replace_in_obj cat_page ''cat'' ''dog'') = dog_page \<and>
   all_keys dog_page = [''text'', ''cat''] \<and> all_keys cat_page = [''text'', ''cat'']"
proof -
  have "all_keys (fst (replace_in_obj cat_page ''cat'' ''dog'')) = all_keys cat_page"
    using replacement_never_rewrites_keys [of cat_page "''cat''" "''dog''"] by blast
  then have "all_keys cat_page = all_keys dog_page"
    by (simp add: cat_page_replaced)
  then show ?thesis
    by (simp add: cat_page_replaced dog_page_keys)
qed

subsection \<open>Degenerate issues\<close>

lemma atc_loop_append:
  "atc_loop cur log (pre @ post) =
     (let (cur', log') = atc_loop cur log pre in atc_loop cur' log' post)"
  by (induction pre arbitrary: cur log) (simp_all add: Let_def split_beta)

lemma claude_issue_loop_append:
  "claude_issue_loop cur had applied (pre @ post) =
     (let (cur', had', applied') = claude_issue_loop cur had applied pre
      in claude_issue_loop cur' had' applied' post)"
  by (induction pre arbitrary: cur had applied) (simp_all add: Let_def split_beta)

lemma atc_loop_degenerate:
  "degenerate i \<Longrightarrow> atc_loop cur log (i # post) = atc_loop cur log post"
  by (auto simp: degenerate_def str_truthy_def Let_def split: option.splits)

lemma claude_issue_loop_degenerate:
  "degenerate i \<Longrightarrow> claude_issue_loop cur had applied (i # post) = claude_issue_loop cur had applied post"
  by (auto simp: degenerate_def get_or_def Let_def split: option.splits)

text \<open>
  C8. A degenerate issue is skipped as a no-op. Wherever it stands in the list of issues,
  the run gives the same Document and the same change records (and, for Claude, the same
  \<open>had_corrections\<close> flag) as the run over the list without it: it is not applied, not
  counted, adds no record, and changes nothing. Both loops are total functions: no issue
  raises an error.
\<close>

theorem degenerate_issue_is_skipped:
  assumes "degenerate i"
  shows "apply_text_corrections base (pre @ i # post) = apply_text_corrections base (pre @ post) \<and>
         claude_issue_loop base had applied (pre @ i # post) =
           claude_issue_loop base had applied (pre @ post)"
  using assms
  by (simp del: atc_loop.simps claude_issue_loop.simps
        add: apply_text_corrections_def atc_loop_append [of _ _ pre]
          claude_issue_loop_append [of _ _ _ pre] split_beta atc_loop_degenerate
          claude_issue_loop_degenerate)

lemma no_corrected_text_degenerate: "degenerate no_corrected_text"
  by (simp add: degenerate_def no_corrected_text_def)

theorem degenerate_issue_is_skipped_witness:
  "degenerate no_corrected_text \<and>
   apply_text_corrections cat_page [no_corrected_text, cat_to_dog] =
     (dog_page, [Correction_applied ''cat'' ''dog'' 2]) \<and>
   claude_issue_loop cat_page False [] [no_corrected_text, cat_to_dog] =
     (dog_page, True, [Issue_applied (JStr ''unknown'') (JStr ''minor'') (JStr []) ''cat'' ''dog'' 2])"
  using degenerate_issue_is_skipped [OF no_corrected_text_degenerate, of cat_page "[]" "[cat_to_dog]" False "[]"]
  unfolding append_Nil cat_page_gemini cat_page_claude
  by (simp add: no_corrected_text_degenerate)

subsection \<open>Full replacement\<close>

text \<open>
  C5 as stated fails. A QA record that carries the Document \<open>"null"\<close> (a string) is not
  taken as a replacement by the Claude script, and one that carries the empty mapping is
  not taken as a replacement by the Gemini script: both fall back to the issues, and the
  saved Document is the base with the issue applied, not the Document carried. Where the
  Gemini script does take the replacement, its \<open>corrections\<close> list is not one
  full-replacement record but one entry per issue that has both texts (two here).
\<close>

theorem full_replacement_counterexample:
  "q_corrected_json qa_null_string = Some (JStr ''null'') \<and>
   fst (claude_process_page 1 cat_ocr (Some qa_null_string)) = dog_page \<and>
   dog_page \<noteq> JStr ''null'' \<and>
   q_corrected_json qa_empty_doc = Some (JObj []) \<and>
   fst (gemini_process_page 1 cat_ocr (Some qa_empty_doc)) = dog_page \<and>
   dog_page \<noteq> JObj [] \<and>
   q_corrected_json qa_bird = Some bird_page \<and>
   gr_corrections (snd (gemini_process_page 1 cat_ocr (Some qa_bird))) =
     [Correction_listed ''cat'' ''dog'', Correction_listed ''cat'' ''dog'']"
  by code_simp

text \<open>
  C5, amended. Claude script: when the QA record carries a \<open>corrected_json\<close> that is
  neither \<open>null\<close> nor the string \<open>"null"\<close>, the saved Document is that Document exactly,
  whatever the issues are, and the change log is the single record \<open>"Full corrected_json
  replacement"\<close>. Gemini script: when the page has a \<open>parsed_json\<close>, the QA record parsed and
  it carries a truthy \<open>corrected_json\<close> (not \<open>null\<close>, \<open>false\<close>, zero or empty), the saved
  Document is that Document exactly, the method is \<open>"corrected_json"\<close>, and \<open>corrections\<close>
  lists the texts of every issue that has both, none of them applied.
\<close>

theorem full_replacement_wins:
  "(q_corrected_json qa = Some r \<and> r \<noteq> JNull \<and> r \<noteq> JStr ''null'' \<longrightarrow>
      claude_process_page n ocr (Some qa) =
        (r, \<lparr>cr_page = n, cr_had_corrections = True,
              cr_corrections_applied = [Full_corrected_json_replacement],
              cr_quality = get_or (JStr ''unknown'') (q_overall_quality qa),
              cr_summary = get_or (JStr []) (q_summary qa),
              cr_book_page = get_or JNull (ocr_book_page ocr)\<rparr>)) \<and>
   (ocr_parsed_json ocr = Some b \<and> b \<noteq> JNull \<and> q_corrected_json qa = Some r \<and> py_truthy r \<longrightarrow>
      fst (gemini_process_page n ocr (Some qa)) = r \<and>
      gr_method (snd (gemini_process_page n ocr (Some qa))) = ''corrected_json'' \<and>
      gr_modified (snd (gemini_process_page n ocr (Some qa))) \<and>
      gr_corrections (snd (gemini_process_page n ocr (Some qa))) =
        map (\<lambda>iss. Correction_listed (get_or [] (original_text iss)) (get_or [] (corrected_text iss)))
          (filter (\<lambda>iss. str_truthy (original_text iss) \<and> str_truthy (corrected_text iss))
             (get_or [] (q_issues qa))))"
  by (simp add: claude_process_page_def gemini_process_page_def get_or_def Let_def)

lemma qa_bird_facts:
  "q_corrected_json qa_bird = Some bird_page" "bird_page \<noteq> JNull" "bird_page \<noteq> JStr ''null''"
  "ocr_parsed_json cat_ocr = Some cat_page" "cat_page \<noteq> JNull" "py_truthy bird_page"
  by (simp_all add: qa_bird_def bird_page_def cat_ocr_def cat_page_def)

theorem full_replacement_wins_witness:
  "q_corrected_json qa_bird = Some bird_page \<and> bird_page \<noteq> JNull \<and> bird_page \<noteq> JStr ''null'' \<and>
   ocr_parsed_json cat_ocr = Some cat_page \<and> cat_page \<noteq> JNull \<and> py_truthy bird_page \<and>
   fst (claude_process_page 7 cat_ocr (Some qa_bird)) = bird_page \<and>
   cr_corrections_applied (snd (claude_process_page 7 cat_ocr (Some qa_bird))) =
     [Full_corrected_json_replacement] \<and>
   fst (gemini_process_page 7 cat_ocr (Some qa_bird)) = bird_page \<and>
   gr_corrections (snd (gemini_process_page 7 cat_ocr (Some qa_bird))) =
     [Correction_listed ''cat'' ''dog'', Correction_listed ''cat'' ''dog'']"
proof -
  have g: "map (\<lambda>iss. Correction_listed (get_or [] (original_text iss)) (get_or [] (corrected_text iss)))
          (filter (\<lambda>iss. str_truthy (original_text iss) \<and> str_truthy (corrected_text iss))
             (get_or [] (q_issues qa_bird))) =
           [Correction_listed ''cat'' ''dog'', Correction_listed ''cat'' ''dog'']"
    by code_simp
  show ?thesis
    using full_replacement_wins [of qa_bird bird_page 7 cat_ocr cat_page] qa_bird_facts
    unfolding g by simp
qed

section \<open>Properties of the recovery engine\<close>

subsection \<open>The order of the stages\<close>






lemma find_sub_None: "find_sub sub s = None \<longleftrightarrow> \<not> sublist sub s"
  by (induction s) (auto simp: sublist_Cons_right)

lemma sublist_trans: "sublist xs ys \<Longrightarrow> sublist ys zs \<Longrightarrow> sublist xs zs"
  using sublist_order.order_trans by blast

lemma no_fence_pair_no_match:
  assumes "\<not> fence_pair s"
  shows "fence_search s = None"
proof (cases "find_sub ''```'' s")
  case None
  then show ?thesis by (simp add: fence_search_def)
next
  case (Some p)
  define rest where "rest = drop (p + 3) s"
  define rest' where "rest' = dropWhile py_isspace (if prefix ''json'' rest then drop 4 rest else rest)"
  have "\<not> sublist ''```'' rest"
    using assms Some by (simp add: fence_pair_def rest_def)
  moreover have "sublist rest' rest"
    unfolding rest'_def by (auto intro: sublist_trans [OF sublist_dropWhile])
  ultimately have "find_sub ''```'' rest' = None"
    unfolding find_sub_None using sublist_trans by blast
  then show ?thesis
    unfolding fence_search_def Let_def Some option.case rest_def [symmetric] rest'_def [symmetric]
    by simp
qed

lemma no_fence_no_index:
  assumes "\<not> sublist ''```'' s"
  shows "find_sub ''```json'' s = None" and "find_sub ''```'' s = None"
proof -
  have "sublist ''```'' ''```json''"
    by (intro prefix_imp_sublist) simp
  then show "find_sub ''```json'' s = None"
    unfolding find_sub_None using assms sublist_trans by blast
  show "find_sub ''```'' s = None"
    unfolding find_sub_None using assms .
qed

lemma nat_digits_nonempty: "nat_digits n \<noteq> []"
  by (subst nat_digits.simps) simp

subsection \<open>Recovering a serialization\<close>

text \<open>
  C3 as stated fails. The serialization of the string Document \<open>```1```\<close> is that text
  between double quotes; it parses back to the same Document, yet both recovery functions
  take the fences inside the string for a fenced block and return the number 1.
\<close>

theorem recover_serialization_counterexample:
  "py_json_loads (py_json_dumps fenced_one) = Inr fenced_one \<and>
   snd (extract_json_robust py_json_loads (py_json_dumps fenced_one)) = JInt 1 \<and>
   extract_json_from_response py_json_loads (py_json_dumps fenced_one) = Inr ([''1''], JInt 1) \<and>
   fenced_one \<noteq> JInt 1"
  by code_simp

text \<open>
  C3, amended. Let \<open>loads\<close> read the serialization of \<open>d\<close> back as \<open>d\<close>. If the
  serialization holds no fence pair, \<open>extract_json_robust\<close> returns \<open>d\<close>, from the direct
  parse alone; if it holds no \<open>```\<close> at all, so does \<open>extract_json_from_response\<close>. Braces
  and commas before closing brackets inside string leaves do not matter.
\<close>

theorem recover_serialization:
  "(loads (py_json_dumps d) = Inr d \<and> \<not> fence_pair (py_json_dumps d) \<longrightarrow>
      extract_json_robust loads (py_json_dumps d) = ([py_json_dumps d], d)) \<and>
   (loads (py_json_dumps d) = Inr d \<and> \<not> sublist ''```'' (py_json_dumps d) \<longrightarrow>
      extract_json_from_response loads (py_json_dumps d) = Inr ([py_json_dumps d], d))"
proof -
  have ne: "py_json_dumps d \<noteq> []"
    by (cases d) (simp_all add: quote_string_def int_digits_def float_digits_def Let_def
          nat_digits_nonempty)
  show ?thesis
    by (simp add: extract_json_robust_def extract_json_from_response_def ne
          no_fence_pair_no_match no_fence_no_index)
qed

lemma braces_leaf_facts:
  "py_json_loads (py_json_dumps braces_leaf) = Inr braces_leaf"
  "\<not> fence_pair (py_json_dumps braces_leaf)"
  "py_json_loads (py_json_dumps cat_page) = Inr cat_page"
  "\<not> sublist ''```'' (py_json_dumps cat_page)"
  by code_simp+

theorem recover_serialization_witness:
  "py_json_loads (py_json_dumps braces_leaf) = Inr braces_leaf \<and>
   \<not> fence_pair (py_json_dumps braces_leaf) \<and>
   snd (extract_json_robust py_json_loads (py_json_dumps braces_leaf)) = braces_leaf \<and>
   py_json_loads (py_json_dumps cat_page) = Inr cat_page \<and>
   \<not> sublist ''```'' (py_json_dumps cat_page) \<and>
   map_sum id snd (extract_json_from_response py_json_loads (py_json_dumps cat_page)) = Inr cat_page"
  using recover_serialization [of py_json_loads braces_leaf]
    recover_serialization [of py_json_loads cat_page] braces_leaf_facts
  by simp

subsection \<open>Exceptions\<close>

text \<open>
  C4 fails on \<open>extract_json_from_response\<close>: on a text with an opening fence and no
  closing fence, \<open>raw.index("```", start)\<close> raises \<open>ValueError\<close>, whatever the parser is.
  \<open>extract_json_robust\<close> has no such path (its regular expression simply does not
  match) and recovers the object from the same text.
\<close>

theorem unclosed_fence_raises:
  "extract_json_from_response loads open_fence = Inl ValueError"
  by (simp add: extract_json_from_response_def open_fence_def)

lemma unclosed_fence_robust:
  "snd (extract_json_robust py_json_loads open_fence) = JObj [(''a'', JInt 1)]"
  by code_simp

subsection \<open>Empty and whitespace-only text\<close>

lemma whitespace_no_sub:
  assumes "\<forall>c\<in>set s. py_isspace c" and "sub \<noteq> []" and "\<not> py_isspace (hd sub)"
  shows "find_sub sub s = None"
proof -
  have "\<not> sublist sub s"
  proof
    assume "sublist sub s"
    then have "set sub \<subseteq> set s" by (rule set_mono_sublist)
    moreover have "hd sub \<in> set sub" using assms(2) by simp
    ultimately show False using assms(1,3) by blast
  qed
  then show ?thesis by (simp add: find_sub_None)
qed

lemma whitespace_no_comma:
  "\<forall>c\<in>set s. py_isspace c \<Longrightarrow> fix_trailing_commas s = s"
  by (induction s) (auto simp: py_isspace_def)

lemma whitespace_strip:
  assumes "\<forall>c\<in>set s. py_isspace c"
  shows "py_strip s = []"
proof -
  have none_left: "dropWhile py_isspace s = []"
    using assms by simp
  show ?thesis
    unfolding py_strip_def py_rstrip_def none_left by simp
qed

text \<open>
  C9 as stated fails: on three spaces \<open>extract_json_robust\<close> hands the text to the parser
  twice (direct parse, then the re-parse after the comma repair) and
  \<open>extract_json_from_response\<close> once, before they return \<open>None\<close>; stages 2 and 3 are not
  skipped.
\<close>

theorem whitespace_counterexample:
  "extract_json_robust py_json_loads three_spaces = ([three_spaces, three_spaces], JNull) \<and>
   extract_json_from_response py_json_loads three_spaces = Inr ([three_spaces], JNull)"
  by code_simp

text \<open>
  C9, amended. On the empty string both functions return \<open>None\<close> at once, with nothing
  handed to the parser. On a text of whitespace only, which the parser rejects, they
  return \<open>None\<close> too, never an empty Document, after the direct parse (and, in
  \<open>extract_json_robust\<close>, the re-parse after the comma repair) has failed; stages 4 and 5
  are skipped.
\<close>

theorem empty_and_whitespace:
  "extract_json_robust loads [] = ([], JNull) \<and>
   extract_json_from_response loads [] = Inr ([], JNull) \<and>
   (raw \<noteq> [] \<and> (\<forall>c\<in>set raw. py_isspace c) \<and> isl (loads raw) \<longrightarrow>
      extract_json_robust loads raw = ([raw, raw], JNull) \<and>
      extract_json_from_response loads raw = Inr ([raw], JNull))"
proof -
  have "extract_json_robust loads raw = ([raw, raw], JNull) \<and>
        extract_json_from_response loads raw = Inr ([raw], JNull)"
    if ne: "raw \<noteq> []" and ws: "\<forall>c\<in>set raw. py_isspace c" and fails: "isl (loads raw)"
  proof -
    have fence: "find_sub ''```'' raw = None" "find_sub ''```json'' raw = None"
      and brace: "find_sub ''{'' raw = None"
      by (rule whitespace_no_sub [OF ws]; simp add: py_isspace_def)+
    obtain e where e: "loads raw = Inl e"
      using fails by (cases "loads raw") simp_all
    show ?thesis
      by (simp add: extract_json_robust_def extract_json_from_response_def fence_search_def
            ne fence brace e whitespace_no_comma [OF ws] whitespace_strip [OF ws])
  qed
  then show ?thesis
    by (simp add: extract_json_robust_def extract_json_from_response_def)
qed

lemma three_spaces_facts:
  "three_spaces \<noteq> []" "\<forall>c\<in>set three_spaces. py_isspace c" "isl (py_json_loads three_spaces)"
  by code_simp+

theorem empty_and_whitespace_witness:
  "three_spaces \<noteq> [] \<and> list_all py_isspace three_spaces \<and> isl (py_json_loads three_spaces) \<and>
   snd (extract_json_robust py_json_loads three_spaces) = JNull \<and>
   map_sum id snd (extract_json_from_response py_json_loads three_spaces) = Inr JNull \<and>
   extract_json_robust py_json_loads [] = ([], JNull)"
  using empty_and_whitespace [of py_json_loads three_spaces] three_spaces_facts
  by (simp add: list_all_iff)

section \<open>Properties of the batch orchestrator\<close>

subsection \<open>The run summary\<close>

lemma call_gemini_loop_page:
  "snd (call_gemini_loop page_num attempts todo) = Some r \<Longrightarrow>
   pr_page r = page_num + 1 \<and> pr_parsed_json r = None \<and>
   (pr_status r = ''success'' \<or> pr_status r = ''failed'')"
  by (induction todo) (auto simp: Let_def split_beta split: response.splits if_splits)

lemma call_gemini_result:
  "snd (call_gemini page_num attempts) = Some r \<Longrightarrow>
   pr_page r = page_num + 1 \<and> pr_parsed_json r = None \<and>
   (pr_status r = ''success'' \<or> pr_status r = ''failed'')"
  unfolding call_gemini_def by (rule call_gemini_loop_page)

lemma collected_page: "pr_page (collected loads attempts p) = Suc p"
proof (cases "snd (call_gemini p (attempts p))")
  case None
  then show ?thesis
    by (simp add: collected_def extract_process_page_def split_beta)
next
  case (Some r)
  then have "pr_page r = p + 1"
    using call_gemini_result by blast
  with Some show ?thesis
    by (simp add: collected_def extract_process_page_def split_beta Let_def
          split: sum.splits)
qed

lemma collected_success:
  "py_truthy (get_or JNull (pr_parsed_json (collected loads attempts p))) \<longleftrightarrow>
   pr_status (collected loads attempts p) = ''success''"
proof (cases "snd (call_gemini p (attempts p))")
  case None
  then show ?thesis
    by (simp add: collected_def extract_process_page_def split_beta get_or_def)
next
  case (Some r)
  then have "pr_status r = ''success'' \<or> pr_status r = ''failed''"
    using call_gemini_result by blast
  with Some show ?thesis
    by (auto simp: collected_def extract_process_page_def split_beta Let_def get_or_def
          split: sum.splits)
qed

lemma insort_collected:
  "insort_key pr_page (collected loads attempts p) (map (collected loads attempts) ps) =
   map (collected loads attempts) (insort p ps)"
  by (induction ps) (simp_all add: collected_page)

lemma sort_collected:
  "sort_key pr_page (map (collected loads attempts) ps) =
   map (collected loads attempts) (sort ps)"
  by (induction ps) (simp_all add: insort_collected)

lemma failed_pages_of_results:
  "map pr_page (filter (\<lambda>r. pr_status r \<noteq> ''success'') (map (collected loads attempts) [0 ..< n])) =
   failed_items loads attempts n"
proof -
  have "map pr_page (filter (\<lambda>r. pr_status r \<noteq> ''success'') (map (collected loads attempts) [0 ..< n])) =
        map Suc (filter (\<lambda>p. pr_status (collected loads attempts p) \<noteq> ''success'') [0 ..< n])"
    by (simp add: filter_map comp_def collected_page)
  also have "\<dots> = filter (\<lambda>i. pr_status (collected loads attempts (i - 1)) \<noteq> ''success'')
                      (map Suc [0 ..< n])"
    by (simp add: filter_map comp_def)
  finally show ?thesis
    by (simp add: failed_items_def map_Suc_upt)
qed

lemma run_summary_counts:
  assumes "sort completed = [0 ..< n]"
  shows "sm_failed_pages (snd (extract_main loads n attempts completed)) = failed_items loads attempts n"
    and "sm_api_failed (snd (extract_main loads n attempts completed)) =
           length (failed_items loads attempts n)"
    and "sm_success (snd (extract_main loads n attempts completed)) =
           n - length (failed_items loads attempts n)"
proof -
  let ?rs = "map (collected loads attempts) [0 ..< n]"
  have sorted: "sort_key pr_page (map (collected loads attempts) completed) = ?rs"
    by (simp add: sort_collected assms)
  show fp: "sm_failed_pages (snd (extract_main loads n attempts completed)) = failed_items loads attempts n"
    by (simp add: extract_main_def Let_def sorted failed_pages_of_results del: map_map)
  have "length (filter (\<lambda>r. pr_status r \<noteq> ''success'') ?rs) =
        length (map pr_page (filter (\<lambda>r. pr_status r \<noteq> ''success'') ?rs))"
    by simp
  then have failed: "length (filter (\<lambda>r. pr_status r \<noteq> ''success'') ?rs) =
                     length (failed_items loads attempts n)"
    by (simp only: failed_pages_of_results)
  then show "sm_api_failed (snd (extract_main loads n attempts completed)) =
           length (failed_items loads attempts n)"
    by (simp add: extract_main_def Let_def sorted)
  have "filter (\<lambda>r. py_truthy (get_or JNull (pr_parsed_json r))) ?rs =
        filter (\<lambda>r. \<not> pr_status r \<noteq> ''success'') ?rs"
    by (rule filter_cong) (auto simp: collected_success)
  then have "length (filter (\<lambda>r. py_truthy (get_or JNull (pr_parsed_json r))) ?rs) +
             length (filter (\<lambda>r. pr_status r \<noteq> ''success'') ?rs) = n"
    using sum_length_filter_compl [of "\<lambda>r. pr_status r \<noteq> ''success''" ?rs] by simp
  with failed show "sm_success (snd (extract_main loads n attempts completed)) =
           n - length (failed_items loads attempts n)"
    by (simp add: extract_main_def Let_def sorted)
qed

subsection \<open>The retry pass\<close>

lemma invoked_append [simp]: "invoked (xs @ ys) = invoked xs @ invoked ys"
  by (induction xs rule: invoked.induct) simp_all

lemma written_append [simp]: "written (xs @ ys) = written xs @ written ys"
  by (induction xs rule: written.induct) simp_all

lemma reads_append [simp]: "reads (xs @ ys) = reads xs @ reads ys"
  by (induction xs rule: reads.induct) simp_all

lemma combined_append [simp]: "combined (xs @ ys) = combined xs @ combined ys"
  by (induction xs rule: combined.induct) simp_all

lemma invoked_map_Read [simp]: "invoked (map Read is) = []"
  by (induction "is") simp_all

lemma written_map_Read [simp]: "written (map Read is) = []"
  by (induction "is") simp_all

lemma reads_map_Read [simp]: "reads (map Read is) = is"
  by (induction "is") simp_all

lemma combined_map_Read [simp]: "combined (map Read is) = []"
  by (induction "is") simp_all

lemma retry_page_loop_events:
  "invoked (fst (retry_page_loop loads p attempts result todo)) = [] \<and>
   combined (fst (retry_page_loop loads p attempts result todo)) = [] \<and>
   reads (fst (retry_page_loop loads p attempts result todo)) = [] \<and>
   set (written (fst (retry_page_loop loads p attempts result todo))) \<subseteq> {Suc p}"
  by (induction todo arbitrary: result)
     (auto simp: Let_def split_beta split: response.splits)

lemma retry_process_page_events:
  "invoked (fst (retry_process_page loads n p attempts)) = []"
  "combined (fst (retry_process_page loads n p attempts)) = []"
  "reads (fst (retry_process_page loads n p attempts)) = []"
  "set (written (fst (retry_process_page loads n p attempts))) \<subseteq> {Suc p}"
  using retry_page_loop_events [of loads p attempts None "[0, 1, 2]"]
  by (simp_all add: retry_process_page_def)

lemma retry_pool_step:
  "retry_pool loads n attempts (p # failed) files =
     (Invoke p # fst (retry_process_page loads n p (attempts p)) @
        fst (retry_pool loads n attempts failed
               (after_writes files (p + 1) (fst (snd (retry_process_page loads n p (attempts p)))))),
      fst (snd (retry_pool loads n attempts failed
               (after_writes files (p + 1) (fst (snd (retry_process_page loads n p (attempts p))))))),
      (case snd (snd (retry_process_page loads n p (attempts p))) of
         Inl e \<Rightarrow> [(p, e)]
       | Inr _ \<Rightarrow> []) @
      snd (snd (retry_pool loads n attempts failed
               (after_writes files (p + 1) (fst (snd (retry_process_page loads n p (attempts p))))))))"
  by (simp add: Let_def split_beta split: sum.splits)

lemma retry_pool_invoked:
  "invoked (fst (retry_pool loads n attempts failed files)) = failed \<and>
   combined (fst (retry_pool loads n attempts failed files)) = [] \<and>
   reads (fst (retry_pool loads n attempts failed files)) = []"
proof (induction failed arbitrary: files)
  case Nil
  then show ?case by simp
next
  case (Cons p failed)
  show ?case
    unfolding retry_pool_step
    by (simp add: Cons retry_process_page_events)
qed

lemma retry_pool_written:
  "set (written (fst (retry_pool loads n attempts failed files))) \<subseteq> Suc ` set failed"
proof (induction failed arbitrary: files)
  case Nil
  then show ?case by simp
next
  case (Cons p failed)
  have "set (written (fst (retry_process_page loads n p (attempts p)))) \<subseteq> {Suc p}"
    by (rule retry_process_page_events)
  with Cons show ?case
    unfolding retry_pool_step by simp blast
qed

lemma retry_pool_unchanged:
  "i \<notin> Suc ` set failed \<Longrightarrow> fst (snd (retry_pool loads n attempts failed files)) i = files i"
proof (induction failed arbitrary: files)
  case Nil
  then show ?case by simp
next
  case (Cons p failed)
  then show ?case
    unfolding retry_pool_step by (simp add: after_writes_def)
qed

lemma map_filter_set: "set (List.map_filter f xs) = {y. \<exists>x\<in>set xs. f x = Some y}"
  by (induction xs) (auto simp: map_filter_simps split: option.splits)

lemma retry_pool_raised:
  "snd (snd (retry_pool loads n attempts failed files)) =
     List.map_filter
       (\<lambda>p. case snd (snd (retry_process_page loads n p (attempts p))) of
              Inl e \<Rightarrow> Some (p, e)
            | Inr _ \<Rightarrow> None)
       failed"
proof (induction failed arbitrary: files)
  case Nil
  then show ?case by (simp add: map_filter_simps)
next
  case (Cons p failed)
  show ?case
    unfolding retry_pool_step
    by (simp add: Cons map_filter_simps split: sum.splits)
qed

lemma raised_ends_main:
  assumes "raised \<noteq> []"
  shows "List.map_filter (map_of raised) (order @ map fst raised) \<noteq> []"
proof -
  obtain q e others where raised: "raised = (q, e) # others"
    using assms by (cases raised) auto
  then have "map_of raised q = Some e" and "q \<in> set (order @ map fst raised)"
    by simp_all
  then have "e \<in> set (List.map_filter (map_of raised) (order @ map fst raised))"
    unfolding map_filter_set by blast
  then show ?thesis
    by auto
qed

lemma needs_retry_update:
  assumes "py_truthy parsed"
  shows "needs_retry (files(i := Some (d\<lparr>pr_parsed_json := Some parsed, pr_status := ''success''\<rparr>))) j
         \<longleftrightarrow> j \<noteq> i \<and> needs_retry files j"
  using assms by (simp add: needs_retry_def get_or_def)

lemma reparse_loop_step:
  "reparse_loop loads (i # is) files =
     (case files i of
        None \<Rightarrow> reparse_loop loads is files
      | Some d \<Rightarrow>
          if \<not> py_truthy (get_or JNull (pr_parsed_json d)) \<and> get_or [] (pr_raw_response d) \<noteq> [] \<and>
             py_truthy (snd (extract_json_robust loads (get_or [] (pr_raw_response d))))
          then
            (Read i # Write i #
               fst (reparse_loop loads is
                      (files(i := Some (d\<lparr>pr_parsed_json :=
                           Some (snd (extract_json_robust loads (get_or [] (pr_raw_response d)))),
                         pr_status := ''success''\<rparr>)))),
             snd (reparse_loop loads is
                      (files(i := Some (d\<lparr>pr_parsed_json :=
                           Some (snd (extract_json_robust loads (get_or [] (pr_raw_response d)))),
                         pr_status := ''success''\<rparr>)))))
          else (Read i # fst (reparse_loop loads is files), snd (reparse_loop loads is files)))"
  by (simp add: Let_def split_beta split: option.splits)

lemma reparse_loop_events:
  "invoked (fst (reparse_loop loads is files)) = [] \<and>
   combined (fst (reparse_loop loads is files)) = [] \<and>
   set (written (fst (reparse_loop loads is files))) \<subseteq> {i \<in> set is. needs_retry files i} \<and>
   (j \<notin> set is \<or> \<not> needs_retry files j \<longrightarrow> snd (reparse_loop loads is files) j = files j)"
proof (induction "is" arbitrary: files)
  case Nil
  then show ?case by simp
next
  case (Cons i "is")
  show ?case
  proof (cases "files i")
    case None
    then show ?thesis
      unfolding reparse_loop_step using Cons [of files] by auto
  next
    case (Some d)
    let ?parsed = "snd (extract_json_robust loads (get_or [] (pr_raw_response d)))"
    let ?files = "files(i := Some (d\<lparr>pr_parsed_json := Some ?parsed, pr_status := ''success''\<rparr>))"
    show ?thesis
    proof (cases "\<not> py_truthy (get_or JNull (pr_parsed_json d)) \<and>
                  get_or [] (pr_raw_response d) \<noteq> [] \<and> py_truthy ?parsed")
      case True
      then have i: "needs_retry files i"
        by (simp add: needs_retry_def Some)
      have upd: "needs_retry ?files k \<longleftrightarrow> k \<noteq> i \<and> needs_retry files k" for k
        using True by (intro needs_retry_update) simp
      have ih: "invoked (fst (reparse_loop loads is ?files)) = []"
        "combined (fst (reparse_loop loads is ?files)) = []"
        "set (written (fst (reparse_loop loads is ?files))) \<subseteq> {k \<in> set is. needs_retry ?files k}"
        "j \<notin> set is \<or> \<not> needs_retry ?files j \<longrightarrow> snd (reparse_loop loads is ?files) j = ?files j"
        using Cons [of ?files] by blast+
      have w: "set (written (fst (reparse_loop loads is ?files))) \<subseteq>
               {k \<in> set (i # is). needs_retry files k}"
        using ih(3) upd by auto
      have u: "j \<notin> set (i # is) \<or> \<not> needs_retry files j \<longrightarrow>
               snd (reparse_loop loads is ?files) j = files j"
      proof
        assume n: "j \<notin> set (i # is) \<or> \<not> needs_retry files j"
        then have "j \<noteq> i" using i by auto
        moreover have "j \<notin> set is \<or> \<not> needs_retry ?files j" using n upd by auto
        ultimately show "snd (reparse_loop loads is ?files) j = files j"
          using ih(4) by simp
      qed
      show ?thesis
        unfolding reparse_loop_step Some option.case if_P [OF True]
        using ih(1,2) w u i by (simp del: fun_upd_apply)
    next
      case False
      show ?thesis
        unfolding reparse_loop_step Some option.case if_not_P [OF False]
        using Cons [of files] by auto
    qed
  qed
qed

lemma reparse_loop_reads:
  "reads (fst (reparse_loop loads is files)) = filter (\<lambda>i. files i \<noteq> None) is \<and>
   (snd (reparse_loop loads is files) j \<noteq> None \<longleftrightarrow> files j \<noteq> None)"
proof (induction "is" arbitrary: files)
  case Nil
  then show ?case by simp
next
  case (Cons i "is")
  show ?case
  proof (cases "files i")
    case None
    then show ?thesis
      unfolding reparse_loop_step using Cons [of files] by simp
  next
    case (Some d)
    let ?parsed = "snd (extract_json_robust loads (get_or [] (pr_raw_response d)))"
    let ?files = "files(i := Some (d\<lparr>pr_parsed_json := Some ?parsed, pr_status := ''success''\<rparr>))"
    have same: "?files k \<noteq> None \<longleftrightarrow> files k \<noteq> None" for k
      using Some by simp
    show ?thesis
    proof (cases "\<not> py_truthy (get_or JNull (pr_parsed_json d)) \<and>
                  get_or [] (pr_raw_response d) \<noteq> [] \<and> py_truthy ?parsed")
      case True
      have "reads (fst (reparse_loop loads is ?files)) = filter (\<lambda>i. files i \<noteq> None) is"
        using Cons [of ?files] same by (simp del: fun_upd_apply)
      moreover have "snd (reparse_loop loads is ?files) j \<noteq> None \<longleftrightarrow> files j \<noteq> None"
        using Cons [of ?files] same by (simp del: fun_upd_apply)
      ultimately show ?thesis
        unfolding reparse_loop_step Some option.case if_P [OF True]
        using Some by (simp del: fun_upd_apply)
    next
      case False
      show ?thesis
        unfolding reparse_loop_step Some option.case if_not_P [OF False]
        using Cons [of files] Some by simp
    qed
  qed
qed

lemma needs_retry_same_file: "files' i = files i \<Longrightarrow> needs_retry files' i = needs_retry files i"
  by (simp add: needs_retry_def)

lemma retry_pages_positive: "i \<in> set retry_pages \<Longrightarrow> 0 < i"
  by (simp add: retry_pages_def del: upt_Suc)

lemma Suc_pred_failed:
  "Suc ` set (map (\<lambda>i. i - 1) (filter P retry_pages)) = set (filter P retry_pages)"
proof -
  let ?F = "set (filter P retry_pages)"
  have "Suc ` set (map (\<lambda>i. i - 1) (filter P retry_pages)) = (\<lambda>i. Suc (i - 1)) ` ?F"
    by (simp only: set_map image_image)
  also have "\<dots> = (\<lambda>i. i) ` ?F"
    by (rule image_cong [OF refl]) (use retry_pages_positive in auto)
  finally show ?thesis by simp
qed

lemma retry_main_unfold:
  fixes files :: store and loads :: loads and n :: nat and attempts :: "nat \<Rightarrow> nat \<Rightarrow> response"
  defines "failed \<equiv> map (\<lambda>i. i - 1) (filter (needs_retry files) retry_pages)"
  defines "pool \<equiv> retry_pool loads n attempts failed files"
  defines "reparse \<equiv> reparse_loop loads retry_pages (fst (snd pool))"
  shows "retry_main loads n attempts order files =
     (if failed = [] then (map Read (filter (\<lambda>i. files i \<noteq> None) retry_pages), files, Inr None)
      else case List.map_filter (map_of (snd (snd pool))) (order @ map fst (snd (snd pool))) of
        e # _ \<Rightarrow>
          (map Read (filter (\<lambda>i. files i \<noteq> None) retry_pages) @ fst pool, fst (snd pool), Inl e)
      | [] \<Rightarrow>
          (map Read (filter (\<lambda>i. files i \<noteq> None) retry_pages) @ fst pool @ fst reparse @
             map Read (filter (\<lambda>i. snd reparse i \<noteq> None) retry_pages) @
             [Write_all_results (List.map_filter (snd reparse) retry_pages)],
           snd reparse,
           Inr (Some (length (filter (\<lambda>r. py_truthy (get_or JNull (pr_parsed_json r)))
                                (List.map_filter (snd reparse) retry_pages))))))"
  unfolding retry_main_def Let_def split_beta failed_def pool_def reparse_def
  by (simp split: list.splits)

lemma retry_main_effects:
  fixes files :: store
  defines "F \<equiv> filter (needs_retry files) retry_pages"
  shows "invoked (fst (retry_main loads n attempts order files)) = map (\<lambda>i. i - 1) F"
    and "set (written (fst (retry_main loads n attempts order files))) \<subseteq> set F"
    and "i \<notin> set F \<Longrightarrow> fst (snd (retry_main loads n attempts order files)) i = files i"
    and "reads (fst (retry_main loads n attempts order files)) =
           filter (\<lambda>i. files i \<noteq> None) retry_pages @
           (case snd (snd (retry_main loads n attempts order files)) of
              Inr (Some k) \<Rightarrow>
                filter (\<lambda>i. fst (snd (retry_main loads n attempts order files)) i \<noteq> None) retry_pages @
                filter (\<lambda>i. fst (snd (retry_main loads n attempts order files)) i \<noteq> None) retry_pages
            | _ \<Rightarrow> [])"
    and "p \<in> set F \<Longrightarrow> n < p \<Longrightarrow> isl (snd (snd (retry_main loads n attempts order files)))"
    and "combined (fst (retry_main loads n attempts order files)) =
           (case snd (snd (retry_main loads n attempts order files)) of
              Inr (Some k) \<Rightarrow>
                [List.map_filter (fst (snd (retry_main loads n attempts order files))) retry_pages]
            | _ \<Rightarrow> [])"
proof -
  let ?failed = "map (\<lambda>i. i - 1) F"
  let ?pool = "retry_pool loads n attempts ?failed files"
  let ?files1 = "fst (snd ?pool)"
  let ?raised = "List.map_filter (map_of (snd (snd ?pool))) (order @ map fst (snd (snd ?pool)))"
  let ?reparse = "reparse_loop loads retry_pages ?files1"
  note main = retry_main_unfold [where files = files, folded F_def]
  have img: "Suc ` set ?failed = set F"
    unfolding F_def by (rule Suc_pred_failed)
  have pool_inv: "invoked (fst ?pool) = ?failed" "combined (fst ?pool) = []"
    "reads (fst ?pool) = []"
    using retry_pool_invoked by blast+
  have pool_wr: "set (written (fst ?pool)) \<subseteq> set F"
    using retry_pool_written [of loads n attempts ?failed files] img by simp
  have pool_same: "?files1 k = files k" if "k \<notin> set F" for k
    using that img by (intro retry_pool_unchanged) simp
  have still_fine: "\<not> needs_retry ?files1 k" if "k \<in> set retry_pages" "k \<notin> set F" for k
  proof -
    have "\<not> needs_retry files k"
      using that by (simp add: F_def)
    then show ?thesis
      using pool_same [OF that(2)] needs_retry_same_file by metis
  qed
  have rep_inv: "invoked (fst ?reparse) = []" "combined (fst ?reparse) = []"
    using reparse_loop_events by blast+
  have rep_rd: "reads (fst ?reparse) = filter (\<lambda>i. snd ?reparse i \<noteq> None) retry_pages"
  proof -
    have "filter (\<lambda>i. snd ?reparse i \<noteq> None) retry_pages =
          filter (\<lambda>i. ?files1 i \<noteq> None) retry_pages"
      by (rule filter_cong [OF refl]) (use reparse_loop_reads in blast)
    then show ?thesis
      using reparse_loop_reads by metis
  qed
  have rep_wr: "set (written (fst ?reparse)) \<subseteq> set F"
  proof -
    have "set (written (fst ?reparse)) \<subseteq> {k \<in> set retry_pages. needs_retry ?files1 k}"
      using reparse_loop_events by blast
    then show ?thesis
      using still_fine by blast
  qed
  have rep_same: "snd ?reparse k = files k" if "k \<notin> set F" for k
  proof -
    have "k \<notin> set retry_pages \<or> \<not> needs_retry ?files1 k"
      using still_fine that by blast
    then have "snd ?reparse k = ?files1 k"
      using reparse_loop_events [of loads retry_pages ?files1 k] by blast
    then show ?thesis
      using pool_same [OF that] by simp
  qed
  show "invoked (fst (retry_main loads n attempts order files)) = map (\<lambda>i. i - 1) F"
    unfolding main using pool_inv rep_inv
    by (simp split: list.splits)
  show "set (written (fst (retry_main loads n attempts order files))) \<subseteq> set F"
    unfolding main using pool_wr rep_wr
    by (simp split: list.splits)
  show "fst (snd (retry_main loads n attempts order files)) i = files i" if "i \<notin> set F"
    unfolding main using pool_same [OF that] rep_same [OF that]
    by (simp split: list.splits)
  show "reads (fst (retry_main loads n attempts order files)) =
           filter (\<lambda>i. files i \<noteq> None) retry_pages @
           (case snd (snd (retry_main loads n attempts order files)) of
              Inr (Some k) \<Rightarrow>
                filter (\<lambda>i. fst (snd (retry_main loads n attempts order files)) i \<noteq> None) retry_pages @
                filter (\<lambda>i. fst (snd (retry_main loads n attempts order files)) i \<noteq> None) retry_pages
            | _ \<Rightarrow> [])"
    unfolding main using pool_inv rep_rd
    by (simp split: list.splits)
  show "isl (snd (snd (retry_main loads n attempts order files)))" if "p \<in> set F" "n < p"
  proof -
    have "p - 1 \<in> set ?failed" and "\<not> p - 1 < n"
      using that by auto
    then have "(p - 1, IndexError (p - 1)) \<in> set (snd (snd ?pool))"
      unfolding retry_pool_raised map_filter_set
      by (auto simp: retry_process_page_def)
    then have "snd (snd ?pool) \<noteq> []"
      by auto
    then have "?raised \<noteq> []"
      by (rule raised_ends_main)
    moreover have "?failed \<noteq> []"
      using that by auto
    ultimately show ?thesis
      unfolding main by (simp split: list.splits)
  qed
  show "combined (fst (retry_main loads n attempts order files)) =
           (case snd (snd (retry_main loads n attempts order files)) of
              Inr (Some k) \<Rightarrow>
                [List.map_filter (fst (snd (retry_main loads n attempts order files))) retry_pages]
            | _ \<Rightarrow> [])"
    unfolding main using pool_inv rep_inv
    by (simp split: list.splits)
qed

lemma map_of_raised:
  "map_of (List.map_filter (\<lambda>p. case outcome p of Inl e \<Rightarrow> Some (p, e) | Inr _ \<Rightarrow> None) failed) q =
     (if q \<in> set failed then (case outcome q of Inl e \<Rightarrow> Some e | Inr _ \<Rightarrow> None) else None)"
  by (induction failed) (auto simp: map_filter_simps split: sum.splits)

lemma retry_main_first_raised:
  assumes "q + 1 \<in> set (filter (needs_retry files) retry_pages)"
    and "snd (snd (retry_process_page loads n q (attempts q))) = Inl e"
  shows "snd (snd (retry_main loads n attempts (q # others) files)) = Inl e"
proof -
  let ?failed = "map (\<lambda>i. i - 1) (filter (needs_retry files) retry_pages)"
  have q: "q \<in> set ?failed"
    using assms(1) by force
  then have ne: "?failed \<noteq> []"
    by (metis empty_iff empty_set)
  have "map_of (snd (snd (retry_pool loads n attempts ?failed files))) q = Some e"
    unfolding retry_pool_raised map_of_raised using q assms(2) by simp
  then show ?thesis
    unfolding retry_main_unfold using ne by (simp add: map_filter_simps)
qed

lemma run_file_needs_retry:
  assumes "1 \<le> i" and "i \<le> n"
  shows "needs_retry (store_after_run loads n attempts earlier) i \<Longrightarrow>
         pr_status (collected loads attempts (i - 1)) \<noteq> ''success''"
    and "pr_status (collected loads attempts (i - 1)) \<noteq> ''success'' \<Longrightarrow>
         needs_retry (store_after_run loads n attempts no_files) i"
proof -
  show "pr_status (collected loads attempts (i - 1)) \<noteq> ''success''"
    if "needs_retry (store_after_run loads n attempts earlier) i"
  proof (cases "snd (extract_process_page loads (i - 1) (attempts (i - 1)))")
    case (Inl e)
    then show ?thesis
      by (simp add: collected_def)
  next
    case (Inr result)
    then have "collected loads attempts (i - 1) = result"
      by (simp add: collected_def)
    then have "py_truthy (get_or JNull (pr_parsed_json result)) \<longleftrightarrow> pr_status result = ''success''"
      using collected_success [of loads attempts "i - 1"] by simp
    then show ?thesis
      using assms that Inr \<open>collected loads attempts (i - 1) = result\<close>
      by (auto simp: needs_retry_def store_after_run_def)
  qed
  show "needs_retry (store_after_run loads n attempts no_files) i"
    if "pr_status (collected loads attempts (i - 1)) \<noteq> ''success''"
  proof (cases "snd (extract_process_page loads (i - 1) (attempts (i - 1)))")
    case (Inl e)
    then show ?thesis
      using assms by (simp add: needs_retry_def store_after_run_def no_files_def)
  next
    case (Inr result)
    then have "collected loads attempts (i - 1) = result"
      by (simp add: collected_def)
    then show ?thesis
      using assms that Inr by (auto simp: needs_retry_def store_after_run_def)
  qed
qed

lemma retry_finds_only_run_failures:
  "set (filter (needs_retry (store_after_run loads n attempts earlier)) retry_pages) \<subseteq>
   set (failed_items loads attempts n) \<union> set (beyond_run n)"
proof
  fix i
  assume "i \<in> set (filter (needs_retry (store_after_run loads n attempts earlier)) retry_pages)"
  then have i: "1 \<le> i" "i < 85" "needs_retry (store_after_run loads n attempts earlier) i"
    by (simp_all add: retry_pages_def del: upt_Suc)
  show "i \<in> set (failed_items loads attempts n) \<union> set (beyond_run n)"
  proof (cases "i \<le> n")
    case True
    then have "pr_status (collected loads attempts (i - 1)) \<noteq> ''success''"
      using run_file_needs_retry(1) i by blast
    then show ?thesis
      using i True by (simp add: failed_items_def del: upt_Suc)
  next
    case False
    then show ?thesis
      using i by (simp add: beyond_run_def del: upt_Suc)
  qed
qed

lemma retry_finds_run_failures:
  "filter (needs_retry (store_after_run loads n attempts no_files)) retry_pages =
   filter (\<lambda>i. i < 85) (failed_items loads attempts n) @ beyond_run n"
proof -
  define m where "m = min n 84"
  let ?needs = "needs_retry (store_after_run loads n attempts no_files)"
  let ?failed = "\<lambda>i. pr_status (collected loads attempts (i - 1)) \<noteq> ''success''"
  have split: "[1 ..< k] = [1 ..< m + 1] @ [m + 1 ..< k]" if "m + 1 \<le> k" for k
    using upt_add_eq_append [of 1 "m + 1" "k - (m + 1)"] that by simp
  have pages: "retry_pages = [1 ..< m + 1] @ [m + 1 ..< 85]"
    unfolding retry_pages_def by (rule split) (simp add: m_def)
  have run: "[1 ..< n + 1] = [1 ..< m + 1] @ [m + 1 ..< n + 1]"
    by (rule split) (simp add: m_def)
  have low: "filter ?needs [1 ..< m + 1] = filter ?failed [1 ..< m + 1]"
  proof (rule filter_cong [OF refl])
    fix i
    assume "i \<in> set [1 ..< m + 1]"
    then have "1 \<le> i" "i \<le> n"
      by (auto simp: m_def simp del: upt_Suc)
    then show "?needs i \<longleftrightarrow> ?failed i"
      using run_file_needs_retry by blast
  qed
  have high: "filter ?needs [m + 1 ..< 85] = beyond_run n"
  proof (cases "n \<le> 84")
    case True
    then have "m = n" by (simp add: m_def)
    moreover have "filter ?needs [n + 1 ..< 85] = [n + 1 ..< 85]"
      by (rule filter_True)
         (simp add: needs_retry_def store_after_run_def no_files_def del: upt_Suc)
    ultimately show ?thesis
      by (simp add: beyond_run_def del: upt_Suc)
  next
    case False
    then show ?thesis
      by (simp add: m_def beyond_run_def del: upt_Suc)
  qed
  have "filter (\<lambda>i. i < 85) (filter ?failed [1 ..< m + 1]) = filter ?failed [1 ..< m + 1]"
    by (rule filter_True) (auto simp: m_def simp del: upt_Suc)
  moreover have "filter (\<lambda>i. i < 85) (filter ?failed [m + 1 ..< n + 1]) = []"
    by (rule filter_False) (auto simp: m_def simp del: upt_Suc)
  ultimately have "filter (\<lambda>i. i < 85) (failed_items loads attempts n) =
                   filter ?failed [1 ..< m + 1]"
    unfolding failed_items_def by (subst run) (simp del: upt_Suc)
  then show ?thesis
    using low high by (subst pages) (simp del: upt_Suc)
qed

lemma example_run_facts:
  "failed_items py_json_loads two_failures 5 = [2, 4]"
  "failed_items py_json_loads two_failures 84 = [2, 4]"
  "filter (\<lambda>i. store_after_run py_json_loads 5 two_failures no_files i \<noteq> None) retry_pages =
     [1, 2, 3, 4, 5]"
  "store_after_run py_json_loads 84 two_failures no_files 3 = Some (object_page 3)"
  "map (\<lambda>i. i - 1) ([2, 4] @ [6 ..< (85::nat)]) = [1, 3] @ [5 ..< 84]"
  by code_simp+

lemma sort_rev_pages: "sort (rev [0 ..< (84::nat)]) = [0 ..< 84]"
  by (rule sorted_distinct_set_unique) simp_all

text \<open>
  C6 as stated fails in its last part, on the specification's own example. After a run
  of five pages where pages 2 and 4 fail, into an empty directory, the retry pass reads
  the files of all five pages to find the failed ones, and calls \<open>process_page\<close> not
  only for the arguments 1 and 3 (pages 2 and 4) but for 5 to 83 as well: its page range
  is 1 to 84, and a page with no file counts as failed. Those calls raise \<open>IndexError\<close>,
  and the pass ends with the exception of the first one the pool yields.
\<close>

theorem retry_rereads_counterexample:
  "failed_items py_json_loads two_failures 5 = [2, 4] \<and>
   invoked (fst (retry_main py_json_loads 5 retry_replies (5 # [6 ..< 84] @ [1, 3])
                   (store_after_run py_json_loads 5 two_failures no_files))) =
     [1, 3] @ [5 ..< 84] \<and>
   snd (snd (retry_main py_json_loads 5 retry_replies (5 # [6 ..< 84] @ [1, 3])
               (store_after_run py_json_loads 5 two_failures no_files))) =
     Inl (IndexError 5) \<and>
   reads (fst (retry_main py_json_loads 5 retry_replies (5 # [6 ..< 84] @ [1, 3])
                 (store_after_run py_json_loads 5 two_failures no_files))) =
     [1, 2, 3, 4, 5]"
proof -
  let ?files = "store_after_run py_json_loads 5 two_failures no_files"
  let ?order = "5 # [6 ..< 84] @ [1, 3]"
  have found: "filter (needs_retry ?files) retry_pages = [2, 4] @ [6 ..< 85]"
    by (simp only: retry_finds_run_failures example_run_facts beyond_run_def) simp
  have inv: "invoked (fst (retry_main py_json_loads 5 retry_replies ?order ?files)) =
             [1, 3] @ [5 ..< 84]"
    by (simp only: retry_main_effects(1) found example_run_facts)
  have "5 + 1 \<in> set (filter (needs_retry ?files) retry_pages)"
    unfolding found by simp
  moreover have "snd (snd (retry_process_page py_json_loads 5 5 (retry_replies 5))) =
                 Inl (IndexError 5)"
    by (simp add: retry_process_page_def)
  ultimately have res: "snd (snd (retry_main py_json_loads 5 retry_replies ?order ?files)) =
                        Inl (IndexError 5)"
    by (rule retry_main_first_raised)
  have "reads (fst (retry_main py_json_loads 5 retry_replies ?order ?files)) = [1, 2, 3, 4, 5]"
    unfolding retry_main_effects(4) res example_run_facts by simp
  with inv res show ?thesis
    using example_run_facts(1) by simp
qed

text \<open>
  C6, amended. Take a first pass over the \<open>n\<close> pages of the PDF, with any outcome of the
  model calls, and let \<open>F\<close> be the pages that fail, in ascending order (\<open>failed_items\<close>).
  Whatever the order in which the pool completes the pages, the summary reports success =
  \<open>n - |F|\<close>, failed = \<open>|F|\<close> and the failed-page list \<open>F\<close>.

  The retry pass works on the pages 1 to 84, whatever \<open>n\<close> is. Run over the files the
  first pass leaves, it calls \<open>process_page\<close> only for pages of \<open>F\<close> and for the pages
  from \<open>n + 1\<close> to 84 that the run did not have; when the directory was empty before the
  run it calls it for exactly the pages of \<open>F\<close> up to 84, in ascending order, and then
  for every page from \<open>n + 1\<close> to 84, which is for exactly \<open>F\<close> when \<open>n\<close> is 84, and ends
  with an exception when \<open>n\<close> is less. It writes no page file outside \<open>F\<close> and
  \<open>n + 1\<close> to 84 and leaves every such file as it was. It does read the page files:
  each one that exists among the pages 1 to 84 once, and twice more when the pass runs
  to its end; then it also writes \<open>all_results.json\<close> anew, from all of them.
\<close>

theorem run_summary_and_retry:
  "(sort completed = [0 ..< n] \<longrightarrow>
      sm_success (snd (extract_main loads n attempts completed)) =
        n - length (failed_items loads attempts n) \<and>
      sm_api_failed (snd (extract_main loads n attempts completed)) =
        length (failed_items loads attempts n) \<and>
      sm_failed_pages (snd (extract_main loads n attempts completed)) =
        failed_items loads attempts n) \<and>
   set (invoked (fst (retry_main loads n again order (store_after_run loads n attempts earlier)))) \<subseteq>
     (\<lambda>i. i - 1) ` (set (failed_items loads attempts n) \<union> set (beyond_run n)) \<and>
   invoked (fst (retry_main loads n again order (store_after_run loads n attempts no_files))) =
     map (\<lambda>i. i - 1) (filter (\<lambda>i. i < 85) (failed_items loads attempts n) @ beyond_run n) \<and>
   (n < 84 \<longrightarrow>
      isl (snd (snd (retry_main loads n again order (store_after_run loads n attempts no_files))))) \<and>
   set (written (fst (retry_main loads n again order (store_after_run loads n attempts earlier)))) \<subseteq>
     set (failed_items loads attempts n) \<union> set (beyond_run n) \<and>
   (i \<notin> set (failed_items loads attempts n) \<union> set (beyond_run n) \<longrightarrow>
      fst (snd (retry_main loads n again order (store_after_run loads n attempts earlier))) i =
        store_after_run loads n attempts earlier i) \<and>
   reads (fst (retry_main loads n again order (store_after_run loads n attempts earlier))) =
     filter (\<lambda>i. store_after_run loads n attempts earlier i \<noteq> None) retry_pages @
     (case snd (snd (retry_main loads n again order (store_after_run loads n attempts earlier))) of
        Inr (Some k) \<Rightarrow>
          filter (\<lambda>i. fst (snd (retry_main loads n again order
                                   (store_after_run loads n attempts earlier))) i \<noteq> None)
            retry_pages @
          filter (\<lambda>i. fst (snd (retry_main loads n again order
                                   (store_after_run loads n attempts earlier))) i \<noteq> None)
            retry_pages
      | _ \<Rightarrow> []) \<and>
   combined (fst (retry_main loads n again order (store_after_run loads n attempts earlier))) =
     (case snd (snd (retry_main loads n again order (store_after_run loads n attempts earlier))) of
        Inr (Some k) \<Rightarrow>
          [List.map_filter
             (fst (snd (retry_main loads n again order (store_after_run loads n attempts earlier))))
             retry_pages]
      | _ \<Rightarrow> [])"
proof -
  let ?files = "store_after_run loads n attempts earlier"
  let ?empty = "store_after_run loads n attempts no_files"
  let ?F = "failed_items loads attempts n"
  let ?found = "filter (needs_retry ?files) retry_pages"
  have found: "set ?found \<subseteq> set ?F \<union> set (beyond_run n)"
    by (rule retry_finds_only_run_failures)
  have "set (invoked (fst (retry_main loads n again order ?files))) = (\<lambda>i. i - 1) ` set ?found"
    by (simp only: retry_main_effects(1) set_map)
  then have inv: "set (invoked (fst (retry_main loads n again order ?files))) \<subseteq>
                  (\<lambda>i. i - 1) ` (set ?F \<union> set (beyond_run n))"
    using found by blast
  have all: "invoked (fst (retry_main loads n again order ?empty)) =
             map (\<lambda>i. i - 1) (filter (\<lambda>i. i < 85) ?F @ beyond_run n)"
    by (simp only: retry_main_effects(1) retry_finds_run_failures)
  have ends: "isl (snd (snd (retry_main loads n again order ?empty)))" if "n < 84"
  proof -
    have "n + 1 \<in> set (beyond_run n)"
      using that by (simp add: beyond_run_def del: upt_Suc)
    then have "n + 1 \<in> set (filter (needs_retry ?empty) retry_pages)"
      by (simp only: retry_finds_run_failures set_append) simp
    then show ?thesis
      by (rule retry_main_effects(5)) simp
  qed
  have wr: "set (written (fst (retry_main loads n again order ?files))) \<subseteq>
            set ?F \<union> set (beyond_run n)"
    using retry_main_effects(2) [of loads n again order ?files] found by blast
  have same: "fst (snd (retry_main loads n again order ?files)) i = ?files i"
    if "i \<notin> set ?F \<union> set (beyond_run n)"
    using that found by (intro retry_main_effects(3)) blast
  note rd = retry_main_effects(4) [of loads n again order ?files]
  note cb = retry_main_effects(6) [of loads n again order ?files]
  show ?thesis
    using run_summary_counts [of completed n loads attempts] inv all ends wr same rd cb
    by blast
qed

theorem run_summary_and_retry_witness:
  "sort (rev [0 ..< 84]) = [0 ..< (84::nat)] \<and>
   sm_success (snd (extract_main py_json_loads 84 two_failures (rev [0 ..< 84]))) = 82 \<and>
   sm_api_failed (snd (extract_main py_json_loads 84 two_failures (rev [0 ..< 84]))) = 2 \<and>
   sm_failed_pages (snd (extract_main py_json_loads 84 two_failures (rev [0 ..< 84]))) = [2, 4] \<and>
   invoked (fst (retry_main py_json_loads 84 retry_replies [3, 1]
                   (store_after_run py_json_loads 84 two_failures no_files))) = [1, 3] \<and>
   set (written (fst (retry_main py_json_loads 84 retry_replies [3, 1]
                        (store_after_run py_json_loads 84 two_failures no_files)))) \<subseteq> {2, 4} \<and>
   3 \<notin> set (failed_items py_json_loads two_failures 84) \<union> set (beyond_run 84) \<and>
   fst (snd (retry_main py_json_loads 84 retry_replies [3, 1]
               (store_after_run py_json_loads 84 two_failures no_files))) 3 =
     Some (object_page 3) \<and>
   3 \<in> set (reads (fst (retry_main py_json_loads 84 retry_replies [3, 1]
                          (store_after_run py_json_loads 84 two_failures no_files)))) \<and>
   (5::nat) < 84 \<and>
   isl (snd (snd (retry_main py_json_loads 5 retry_replies (5 # [6 ..< 84] @ [1, 3])
                    (store_after_run py_json_loads 5 two_failures no_files))))"
proof -
  let ?run = "retry_main py_json_loads 84 retry_replies [3, 1]
                (store_after_run py_json_loads 84 two_failures no_files)"
  note at_84 = run_summary_and_retry [where completed = "rev [0 ..< 84]" and n = 84
      and loads = py_json_loads and attempts = two_failures and again = retry_replies
      and order = "[3, 1]" and i = 3 and earlier = no_files,
      unfolded example_run_facts sort_rev_pages]
  note at_5 = run_summary_and_retry [where n = 5 and loads = py_json_loads
      and attempts = two_failures and again = retry_replies
      and order = "5 # [6 ..< 84] @ [1, 3]" and earlier = no_files]
  have none_beyond: "beyond_run 84 = []"
    by (simp add: beyond_run_def)
  have summary: "sm_success (snd (extract_main py_json_loads 84 two_failures (rev [0 ..< 84]))) = 82"
    "sm_api_failed (snd (extract_main py_json_loads 84 two_failures (rev [0 ..< 84]))) = 2"
    "sm_failed_pages (snd (extract_main py_json_loads 84 two_failures (rev [0 ..< 84]))) = [2, 4]"
    using at_84 by simp_all
  have inv: "invoked (fst ?run) = [1, 3]"
    using at_84 by (simp add: none_beyond)
  have wr: "set (written (fst ?run)) \<subseteq> {2, 4}"
    using at_84 by (simp add: none_beyond)
  have same: "fst (snd ?run) 3 = Some (object_page 3)"
    using at_84 by (simp add: none_beyond)
  have "reads (fst ?run) =
        filter (\<lambda>i. store_after_run py_json_loads 84 two_failures no_files i \<noteq> None) retry_pages @
        (case snd (snd ?run) of
           Inr (Some k) \<Rightarrow> filter (\<lambda>i. fst (snd ?run) i \<noteq> None) retry_pages @
                           filter (\<lambda>i. fst (snd ?run) i \<noteq> None) retry_pages
         | _ \<Rightarrow> [])"
    using at_84 by blast
  moreover have "3 \<in> set (filter (\<lambda>i. store_after_run py_json_loads 84 two_failures no_files i \<noteq> None)
                           retry_pages)"
    by (simp add: example_run_facts retry_pages_def del: upt_Suc)
  ultimately have rd: "3 \<in> set (reads (fst ?run))"
    by simp
  have ends: "isl (snd (snd (retry_main py_json_loads 5 retry_replies (5 # [6 ..< 84] @ [1, 3])
                               (store_after_run py_json_loads 5 two_failures no_files))))"
    using at_5 by simp
  show ?thesis
    using sort_rev_pages summary inv wr same rd ends
    by (simp add: example_run_facts none_beyond)
qed

subsection \<open>The model call\<close>

text \<open>
  C7 fails on \<open>call_gemini\<close>: when the third attempt is rate-limited too, the function
  sleeps once more and falls out of its loop without a \<open>return\<close>, so the caller gets
  \<open>None\<close>, not a failed result. (The waits 7, 9 and 13 seconds are \<open>2 ** (attempt + 1) + 5\<close>.)
\<close>

theorem three_rate_limits_give_none:
  "call_gemini page_num three_rate_limits =
     ([Post 0, Sleep 7, Post 1, Sleep 9, Post 2, Sleep 13], None)"
  by (simp add: call_gemini_def three_rate_limits_def)

lemma three_rate_limits_in_first_pass:
  "snd (extract_process_page loads page_num three_rate_limits) = Inl AttributeError"
  by (simp add: extract_process_page_def call_gemini_def three_rate_limits_def)

lemma three_rate_limits_in_retry:
  "page_num < total_pages \<Longrightarrow>
   retry_process_page loads total_pages page_num three_rate_limits =
     ([Post 0, Sleep 5, Post 1, Sleep 10, Post 2, Sleep 15], [], Inl UnboundLocalError)"
  by (simp add: retry_process_page_def three_rate_limits_def)

lemma call_gemini_loop_posts:
  "length (filter (\<lambda>e. case e of Post _ \<Rightarrow> True | _ \<Rightarrow> False)
             (fst (call_gemini_loop page_num attempts todo))) \<le> length todo"
  by (induction todo) (auto simp: Let_def split_beta split: response.splits)

lemma call_gemini_at_most_three_posts:
  "length (filter (\<lambda>e. case e of Post _ \<Rightarrow> True | _ \<Rightarrow> False)
             (fst (call_gemini page_num attempts))) \<le> 3"
  using call_gemini_loop_posts [of page_num attempts "[0, 1, 2]"]
  by (simp add: call_gemini_def)

end
